theory Spec2Isabelle
  imports Main
begin

section \<open>Errors\<close>

text \<open>
  Every \<^verbatim>\<open>throw\<close> of the TypeScript sources, and every rejected promise of the
  provider, is a value of this type; a fallible function returns \<open>error + 'a\<close> with
  \<open>Inl\<close> for the exception.
\<close>

datatype error =
    InvalidAmountFormat
  | InvalidQuantity
  | SyntaxError
  | TypeError
  | RangeError
  | Error string
  | RpcFailure string

section \<open>Decimal strings\<close>

text \<open>
  \<^verbatim>\<open>bigint.toString()\<close> and the digit strings read by the parsers. A bigint is an
  unbounded \<open>int\<close>. \<open>digit_char\<close> is applied to numbers below ten only.
\<close>

definition digit_char :: "nat \<Rightarrow> char" where
  "digit_char d = ''0123456789'' ! d"

definition digit_val :: "char \<Rightarrow> nat" where
  "digit_val c = of_char c - 48"

definition is_digit :: "char \<Rightarrow> bool" where
  "is_digit c = (48 \<le> (of_char c :: nat) \<and> (of_char c :: nat) \<le> 57)"

fun dec_of_nat :: "nat \<Rightarrow> string" where
  "dec_of_nat n =
     (if n < 10 then [digit_char n] else dec_of_nat (n div 10) @ [digit_char (n mod 10)])"

declare dec_of_nat.simps [simp del]

definition nat_of_dec :: "string \<Rightarrow> nat" where
  "nat_of_dec s = foldl (\<lambda>a c. 10 * a + digit_val c) 0 s"

definition bigint_toString :: "int \<Rightarrow> string" where
  "bigint_toString v = (if v < 0 then ''-'' @ dec_of_nat (nat (- v)) else dec_of_nat (nat v))"

section \<open>utils/unitConverter.ts\<close>

datatype EthUnit = Wei | Kwei | Mwei | Gwei | Szabo | Finney | Ether

fun UNIT_DECIMALS :: "EthUnit \<Rightarrow> nat" where
  "UNIT_DECIMALS Wei = 0"
| "UNIT_DECIMALS Kwei = 3"
| "UNIT_DECIMALS Mwei = 6"
| "UNIT_DECIMALS Gwei = 9"
| "UNIT_DECIMALS Szabo = 12"
| "UNIT_DECIMALS Finney = 15"
| "UNIT_DECIMALS Ether = 18"

definition pad_zeros :: "nat \<Rightarrow> string \<Rightarrow> string" where
  "pad_zeros w s = replicate (w - length s) (CHR ''0'') @ s"

definition strip_trailing_zeros :: "string \<Rightarrow> string" where
  "strip_trailing_zeros s =
     (let t = rev (dropWhile (\<lambda>c. c = CHR ''0'') (rev s)) in if t = [] then ''0'' else t)"

text \<open>
  Modelled from the spec: \<^verbatim>\<open>ethers.formatUnits\<close> is a function of the ethers library,
  which is not part of the sources. The spec (4.1) gives the rendering: the amount of
  base units is divided by \<open>10 ^ scale\<close> and written as a decimal string, trailing
  zeros suppressed, with at least one fractional digit when the scale is positive (an
  exact integer renders with \<open>.0\<close>) and no decimal point at scale 0. The repository's
  tests fix the same outputs (\<open>1.0\<close> for one ether, \<open>1000000000000000000\<close> for its
  wei). A negative amount (a balance delta) carries a leading minus sign.
\<close>

definition formatUnits :: "int \<Rightarrow> nat \<Rightarrow> string" where
  "formatUnits v decimals =
     (let sign = (if v < 0 then ''-'' else []);
          m = nat \<bar>v\<bar>
      in if decimals = 0 then sign @ dec_of_nat m
         else sign @ dec_of_nat (m div 10 ^ decimals) @ ''.'' @
              strip_trailing_zeros (pad_zeros decimals (dec_of_nat (m mod 10 ^ decimals))))"

text \<open>
  Modelled from the spec: \<^verbatim>\<open>ethers.parseUnits\<close>, of the same library. The spec (4.1)
  constrains the input to a non-negative base-10 number with at most \<open>scale\<close>
  fractional digits, failing with \<open>InvalidAmountFormat\<close> otherwise, and normalises it
  to the integer count of base units \<open>value * 10 ^ scale\<close>. The string is split at
  its first decimal point; the whole part or the fractional part may be empty, not both.
\<close>

definition parseUnits :: "string \<Rightarrow> nat \<Rightarrow> error + int" where
  "parseUnits v decimals =
     (let whole = takeWhile (\<lambda>c. c \<noteq> CHR ''.'') v;
          frac = (case dropWhile (\<lambda>c. c \<noteq> CHR ''.'') v of [] \<Rightarrow> [] | _ # f \<Rightarrow> f)
      in if \<not> list_all is_digit whole \<or> \<not> list_all is_digit frac \<or> whole @ frac = []
            \<or> decimals < length frac
         then Inl InvalidAmountFormat
         else Inr (int (nat_of_dec whole * 10 ^ decimals
                        + nat_of_dec frac * 10 ^ (decimals - length frac))))"

text \<open>
  Modelled from the spec: \<^verbatim>\<open>ethers.formatUnits\<close> and \<^verbatim>\<open>ethers.formatEther\<close> as the
  code calls them on a bigint of its own (a product, a balance, a transferred value). The
  rendering is \<open>formatUnits\<close> above. The spec gives no bound; the library renders
  through a signed fixed-point format 512 bits wide and throws a \<open>RangeError\<close> (its
  \<^verbatim>\<open>NUMERIC_FAULT\<close>, overflow) for a value outside that format, which is the one way
  such a call fails.
\<close>

definition fits_fixed_format :: "int \<Rightarrow> bool" where
  "fits_fixed_format v = (- (2 ^ 511) \<le> v \<and> v < 2 ^ 511)"

definition ethers_formatUnits :: "int \<Rightarrow> nat \<Rightarrow> error + string" where
  "ethers_formatUnits v decimals =
     (if fits_fixed_format v then Inr (formatUnits v decimals) else Inl RangeError)"

definition formatEther :: "int \<Rightarrow> error + string" where
  "formatEther v = ethers_formatUnits v 18"

definition parseEther :: "string \<Rightarrow> error + int" where
  "parseEther s = parseUnits s 18"

text \<open>
  \<^verbatim>\<open>convertUnits(value, fromUnit, toUnit)\<close>: parse to wei at the source unit's scale, then
  format at the target unit's scale. A failure of the parse propagates. The value that is
  formatted is the outcome of the parse, and both steps are the functions of the spec.
\<close>

definition convertUnits :: "string \<Rightarrow> EthUnit \<Rightarrow> EthUnit \<Rightarrow> error + string" where
  "convertUnits v fromUnit toUnit =
     (let fromDecimals = UNIT_DECIMALS fromUnit;
          toDecimals = UNIT_DECIMALS toUnit
      in case parseUnits v fromDecimals of
           Inl e \<Rightarrow> Inl e
         | Inr weiValue \<Rightarrow> Inr (formatUnits weiValue toDecimals))"

record tx_cost =
  wei :: string
  gwei :: string
  eth :: string

text \<open>
  \<^verbatim>\<open>calculateTxCost(gasUsed, gasPrice)\<close>: the body multiplies and renders. It has no
  check and no \<^verbatim>\<open>throw\<close> of its own; it fails where a rendering of the product does.
\<close>

definition calculateTxCost :: "int \<Rightarrow> int \<Rightarrow> error + tx_cost" where
  "calculateTxCost gasUsed gasPrice =
     (let cost = gasUsed * gasPrice in
      case ethers_formatUnits cost 9 of
        Inl e \<Rightarrow> Inl e
      | Inr inGwei \<Rightarrow>
          (case formatEther cost of
             Inl e \<Rightarrow> Inl e
           | Inr inEth \<Rightarrow> Inr \<lparr>wei = bigint_toString cost, gwei = inGwei, eth = inEth\<rparr>))"

text \<open>
  The amount of base units that a rendered string denotes at a given scale, a leading
  minus sign negating it. This is the reading used to state what the renderings of
  \<open>calculateTxCost\<close> mean; the sources do not call it.
\<close>

definition amount_of :: "string \<Rightarrow> nat \<Rightarrow> error + int" where
  "amount_of s decimals =
     (case s of
        [] \<Rightarrow> parseUnits s decimals
      | c # t \<Rightarrow>
          if c = CHR ''-''
          then (case parseUnits t decimals of Inl e \<Rightarrow> Inl e | Inr n \<Rightarrow> Inr (- n))
          else parseUnits s decimals)"

section \<open>constants/networks.ts\<close>

record NetworkConfig =
  name :: string
  chainId :: int
  rpcUrl :: string
  explorerUrl :: string
  explorerApiUrl :: string
  l1ChainId :: int
  l1RpcUrl :: string
  bridgeAddress :: string
  testnetPaymaster :: "string option"

definition NETWORKS_mainnet :: NetworkConfig where
  "NETWORKS_mainnet =
     \<lparr>name = ''zkSync Era Mainnet'', chainId = 324,
      rpcUrl = ''https://mainnet.era.zksync.io'',
      explorerUrl = ''https://explorer.zksync.io'',
      explorerApiUrl = ''https://block-explorer-api.mainnet.zksync.io'',
      l1ChainId = 1, l1RpcUrl = ''https://ethereum.publicnode.com'',
      bridgeAddress = ''0x32400084C286CF3E17e7B677ea9583e60a000324'',
      testnetPaymaster = None\<rparr>"

definition NETWORKS_sepolia :: NetworkConfig where
  "NETWORKS_sepolia =
     \<lparr>name = ''zkSync Era Sepolia Testnet'', chainId = 300,
      rpcUrl = ''https://sepolia.era.zksync.dev'',
      explorerUrl = ''https://sepolia.explorer.zksync.io'',
      explorerApiUrl = ''https://block-explorer-api.sepolia.zksync.dev'',
      l1ChainId = 11155111, l1RpcUrl = ''https://ethereum-sepolia.publicnode.com'',
      bridgeAddress = ''0x9A6DE0f62Aa270A8bCB1e2610078650D539B1Ef9'',
      testnetPaymaster = Some ''0x3cb2b87d10ac01736a65688f3e0fb1b070b3eea3''\<rparr>"

text \<open>
  \<^verbatim>\<open>NETWORKS\<close> is an object literal, and \<^verbatim>\<open>NETWORKS[network]\<close> is a JavaScript
  property read: a key that is not an own property is looked up on the prototype of the
  literal, \<^verbatim>\<open>Object.prototype\<close>, whose members are functions (and, for
  \<^verbatim>\<open>__proto__\<close>, the prototype object itself). A read therefore yields one of the two
  configurations, an inherited member, or \<^verbatim>\<open>undefined\<close> (\<open>None\<close>).
\<close>

datatype property_value = Config NetworkConfig | Inherited string

definition Object_prototype_keys :: "string list" where
  "Object_prototype_keys =
     [''constructor'', ''hasOwnProperty'', ''isPrototypeOf'', ''propertyIsEnumerable'',
      ''toLocaleString'', ''toString'', ''valueOf'', ''__proto__'',
      ''__defineGetter__'', ''__defineSetter__'', ''__lookupGetter__'', ''__lookupSetter__'']"

definition NETWORKS :: "string \<Rightarrow> property_value option" where
  "NETWORKS key =
     (if key = ''mainnet'' then Some (Config NETWORKS_mainnet)
      else if key = ''sepolia'' then Some (Config NETWORKS_sepolia)
      else if key \<in> set Object_prototype_keys then Some (Inherited key)
      else None)"

text \<open>Truthiness of an optional string: \<^verbatim>\<open>undefined\<close> and the empty string are falsy.\<close>

definition truthy_string :: "string option \<Rightarrow> bool" where
  "truthy_string x = (case x of None \<Rightarrow> False | Some s \<Rightarrow> s \<noteq> [])"

text \<open>
  \<^verbatim>\<open>getNetworkConfig(network, customRpcUrl?)\<close>. Objects and functions are truthy, so
  \<^verbatim>\<open>NETWORKS[network] || NETWORKS.mainnet\<close> falls back only on \<^verbatim>\<open>undefined\<close>.
\<close>

definition getNetworkConfig :: "string \<Rightarrow> string option \<Rightarrow> property_value" where
  "getNetworkConfig network customRpcUrl =
     (if network = ''custom'' \<and> truthy_string customRpcUrl
      then Config \<lparr>name = ''Custom Network'', chainId = 0, rpcUrl = the customRpcUrl,
                   explorerUrl = [], explorerApiUrl = [], l1ChainId = 0, l1RpcUrl = [],
                   bridgeAddress = [], testnetPaymaster = None\<rparr>
      else (case NETWORKS network of Some v \<Rightarrow> v | None \<Rightarrow> Config NETWORKS_mainnet))"

section \<open>JavaScript built-ins used by the trigger node\<close>

text \<open>
  \<^verbatim>\<open>(x as number) || d\<close>: the stored number when it is truthy, the default otherwise.
  \<^verbatim>\<open>undefined\<close> (\<open>None\<close>) and \<open>0\<close> are the falsy cases of an integer cursor.
\<close>

definition or_default :: "int option \<Rightarrow> int \<Rightarrow> int" where
  "or_default x d = (case x of None \<Rightarrow> d | Some v \<Rightarrow> if v = 0 then d else v)"

text \<open>\<^verbatim>\<open>String.prototype.toLowerCase\<close> on the ASCII letters of a hexadecimal address.\<close>

definition toLowerCase :: "string \<Rightarrow> string" where
  "toLowerCase s =
     map (\<lambda>c. if 65 \<le> (of_char c :: nat) \<and> (of_char c :: nat) \<le> 90
              then char_of (of_char c + 32 :: nat) else c) s"

text \<open>
  \<^verbatim>\<open>BigInt(string)\<close>: surrounding white space is trimmed; the empty string is \<open>0\<close>; a
  decimal literal may carry a sign and leading zeros; \<^verbatim>\<open>0x\<close>, \<^verbatim>\<open>0o\<close> and \<^verbatim>\<open>0b\<close>
  introduce an unsigned literal of base 16, 8 or 2; anything else is a \<open>SyntaxError\<close>.
  White space is the ASCII part of the JavaScript definition.
\<close>

definition is_whitespace :: "char \<Rightarrow> bool" where
  "is_whitespace c = ((of_char c :: nat) \<in> {9, 10, 11, 12, 13, 32})"

definition trim :: "string \<Rightarrow> string" where
  "trim s = rev (dropWhile is_whitespace (rev (dropWhile is_whitespace s)))"

definition digit_of_base :: "nat \<Rightarrow> char \<Rightarrow> nat option" where
  "digit_of_base b c =
     (let n = (of_char c :: nat);
          v = (if 48 \<le> n \<and> n \<le> 57 then n - 48
               else if 97 \<le> n \<and> n \<le> 122 then n - 87
               else if 65 \<le> n \<and> n \<le> 90 then n - 55
               else b)
      in if v < b then Some v else None)"

definition digits_of_base :: "nat \<Rightarrow> string \<Rightarrow> error + int" where
  "digits_of_base b s =
     (if s \<noteq> [] \<and> list_all (\<lambda>c. digit_of_base b c \<noteq> None) s
      then Inr (int (foldl (\<lambda>a c. b * a + the (digit_of_base b c)) 0 s))
      else Inl SyntaxError)"

definition BigInt :: "string \<Rightarrow> error + int" where
  "BigInt s =
     (case trim s of
        [] \<Rightarrow> Inr 0
      | c # r \<Rightarrow>
          if c = CHR ''+'' then digits_of_base 10 r
          else if c = CHR ''-''
            then (case digits_of_base 10 r of Inl e \<Rightarrow> Inl e | Inr n \<Rightarrow> Inr (- n))
          else if c = CHR ''0'' \<and> r \<noteq> [] \<and> (hd r = CHR ''x'' \<or> hd r = CHR ''X'')
            then digits_of_base 16 (tl r)
          else if c = CHR ''0'' \<and> r \<noteq> [] \<and> (hd r = CHR ''o'' \<or> hd r = CHR ''O'')
            then digits_of_base 8 (tl r)
          else if c = CHR ''0'' \<and> r \<noteq> [] \<and> (hd r = CHR ''b'' \<or> hd r = CHR ''B'')
            then digits_of_base 2 (tl r)
          else digits_of_base 10 (c # r))"

section \<open>ZkSyncTrigger.node.ts: data\<close>

datatype trigger =
    NewBlock | NewL1Batch | TransactionConfirmed | EthReceived | EthSent
  | TokenTransfer | NftTransfer | ContractEvent | BlockFinalized | BalanceChange

text \<open>
  What the provider returns, with the fields the poller reads. A field that the code
  reads through \<^verbatim>\<open>?.\<close> or tests for truthiness is optional. Field names carry a
  prefix for their record, since several records share names such as \<^verbatim>\<open>hash\<close>.
\<close>

record transaction =
  tx_hash :: string
  tx_from :: "string option"
  tx_to :: "string option"
  tx_value :: "int option"

record block =
  blk_number :: int
  blk_hash :: "string option"
  blk_timestamp :: int
  blk_gasLimit :: "int option"
  blk_gasUsed :: "int option"
  blk_transactions :: "string list option"
  blk_prefetchedTransactions :: "transaction list option"

record batch_details =
  bd_number :: int
  bd_timestamp :: int
  bd_l1TxCount :: int
  bd_l2TxCount :: int
  bd_rootHash :: "string option"
  bd_status :: string
  bd_commitTxHash :: "string option"
  bd_proveTxHash :: "string option"
  bd_executeTxHash :: "string option"

record receipt =
  rc_hash :: string
  rc_status :: "int option"
  rc_blockNumber :: int
  rc_from :: string
  rc_to :: "string option"
  rc_gasUsed :: "int option"

record log =
  log_topics :: "string list"
  log_data :: string
  log_blockNumber :: int
  log_transactionHash :: string
  log_index :: int

record log_filter =
  flt_address :: string
  flt_topics :: "string list"
  flt_fromBlock :: int
  flt_toBlock :: int

text \<open>
  \<^verbatim>\<open>ethers.Interface\<close>, as far as the poller uses it: the topic hashes of its event
  fragments, in order, and \<^verbatim>\<open>parseLog\<close>, which throws or returns a decoded log (its name
  and its arguments rendered as strings) or \<^verbatim>\<open>null\<close>.
\<close>

record decoded_log =
  dl_name :: string
  dl_args :: "(string \<times> string) list"

record interface =
  if_eventTopics :: "string list"
  if_parseLog :: "string list \<Rightarrow> string \<Rightarrow> error + decoded_log option"

text \<open>
  The emitted items. The arguments are the fields of the \<^verbatim>\<open>json\<close> object in source
  order; each item ends with the network name. The \<^verbatim>\<open>timestampDate\<close> of a block item is
  a rendering of its \<^verbatim>\<open>timestamp\<close> and is not carried.
\<close>

datatype event =
    NewBlockEvent int "string option" int "string option" "string option" nat string
  | NewL1BatchEvent batch_details string
  | TransactionConfirmedEvent string string int int string "string option" "string option" string
  | EthTransferEvent string string "string option" "string option" "string option" string int string
  | TokenTransferEvent string string string string int string int string
  | NftTransferEvent string string string string int string int string
  | ContractEventEvent "string option" string "(string \<times> string) list" int string int string
  | BlockFinalizedEvent int string "string option" "string option" "string option" string
  | BalanceChangeEvent string string string string string string string string string

text \<open>
  \<^verbatim>\<open>workflowStaticData\<close>: the cursor state that survives between invocations. Each fixed
  key is a field. The keys \<^verbatim>\<open>tx_<hash>\<close> and \<^verbatim>\<open>batch_executed_<number>\<close> only ever
  hold \<^verbatim>\<open>true\<close>, so each family is the set of hashes, resp. batch numbers, whose key is
  set; the two prefixes differ from each other and from every fixed key, so no two of
  these keys coincide.
\<close>

record static_data =
  lastBlock :: "int option"
  lastL1Batch :: "int option"
  lastCheckedBlock :: "int option"
  lastTokenBlock :: "int option"
  lastNftBlock :: "int option"
  lastEventBlock :: "int option"
  lastFinalizedBatch :: "int option"
  lastBalance :: "string option"
  tx_triggered :: "string set"
  batch_executed :: "int set"

text \<open>
  One invocation's surroundings: the node parameters, \<^verbatim>\<open>config.name\<close> of the network
  configuration, the provider's answers (\<open>Inl\<close> when the call rejects) and the ethers
  functions the poller calls. \<open>getBlockWithTxs\<close> is \<^verbatim>\<open>provider.getBlock(n, true)\<close>. A
  \<^verbatim>\<open>null\<close> answer of \<^verbatim>\<open>getL1BatchDetails\<close> makes the first field access throw, before
  anything else happens in that iteration, and is an \<open>Inl\<close> answer here.
\<close>

record poll_env =
  triggerOn :: trigger
  txHash :: string
  confirmations :: int
  watchAddress :: string
  contractAddress :: string
  filterAddress :: string
  eventAbi :: string
  config_name :: string
  getBlockNumber :: "error + int"
  getL1BatchNumber :: "error + int"
  getBlock :: "int \<Rightarrow> error + block option"
  getBlockWithTxs :: "int \<Rightarrow> error + block option"
  getL1BatchDetails :: "int \<Rightarrow> error + batch_details"
  getTransactionReceipt :: "string \<Rightarrow> error + receipt option"
  getLogs :: "log_filter \<Rightarrow> error + log list"
  getBalance :: "string \<Rightarrow> error + int"
  isAddress :: "string \<Rightarrow> bool"
  ethers_id :: "string \<Rightarrow> string"
  ethers_Interface :: "string \<Rightarrow> error + interface"

section \<open>ZkSyncTrigger.node.ts: poll\<close>

text \<open>
  An invocation returns the items it emits, or throws, and leaves the static data as the
  assignments executed so far have made it: the result is a pair of \<open>error + event list\<close>
  and the static data. The empty list is the \<^verbatim>\<open>null\<close> return. Each \<^verbatim>\<open>for\<close> loop over
  block or batch numbers is a recursion over the list \<open>[last + 1..current]\<close>, which is
  empty when \<open>current \<le> last\<close>; \<open>returnData\<close> is the accumulator.
\<close>

subsection \<open>newBlock\<close>

text \<open>
  The item of a block. \<^verbatim>\<open>new Date(ms).toISOString()\<close> throws a \<open>RangeError\<close> when the
  time value is outside the range of dates.
\<close>

definition block_item :: "poll_env \<Rightarrow> block \<Rightarrow> error + event" where
  "block_item env b =
     (if 8640000000000000 < \<bar>blk_timestamp b * 1000\<bar> then Inl RangeError
      else Inr (NewBlockEvent (blk_number b) (blk_hash b) (blk_timestamp b)
                  (map_option bigint_toString (blk_gasLimit b))
                  (map_option bigint_toString (blk_gasUsed b))
                  (case blk_transactions b of None \<Rightarrow> 0 | Some ts \<Rightarrow> length ts)
                  (config_name env)))"

fun scan_blocks :: "poll_env \<Rightarrow> int list \<Rightarrow> event list \<Rightarrow> error + event list" where
  "scan_blocks env [] returnData = Inr returnData"
| "scan_blocks env (blockNum # rest) returnData =
     (case getBlock env blockNum of
        Inl e \<Rightarrow> Inl e
      | Inr None \<Rightarrow> scan_blocks env rest returnData
      | Inr (Some b) \<Rightarrow>
          (case block_item env b of
             Inl e \<Rightarrow> Inl e
           | Inr item \<Rightarrow> scan_blocks env rest (returnData @ [item])))"

definition poll_newBlock :: "poll_env \<Rightarrow> static_data \<Rightarrow> (error + event list) \<times> static_data" where
  "poll_newBlock env st =
     (case getBlockNumber env of
        Inl e \<Rightarrow> (Inl e, st)
      | Inr currentBlock \<Rightarrow>
          let lastBlock' = or_default (lastBlock st) (currentBlock - 1) in
          if currentBlock > lastBlock' then
            (case scan_blocks env [lastBlock' + 1..currentBlock] [] of
               Inl e \<Rightarrow> (Inl e, st)
             | Inr returnData \<Rightarrow> (Inr returnData, st\<lparr>lastBlock := Some currentBlock\<rparr>))
          else (Inr [], st))"

subsection \<open>newL1Batch\<close>

fun scan_batches :: "poll_env \<Rightarrow> int list \<Rightarrow> event list \<Rightarrow> error + event list" where
  "scan_batches env [] returnData = Inr returnData"
| "scan_batches env (batchNum # rest) returnData =
     (case getL1BatchDetails env batchNum of
        Inl e \<Rightarrow> Inl e
      | Inr details \<Rightarrow>
          scan_batches env rest (returnData @ [NewL1BatchEvent details (config_name env)]))"

definition poll_newL1Batch :: "poll_env \<Rightarrow> static_data \<Rightarrow> (error + event list) \<times> static_data" where
  "poll_newL1Batch env st =
     (case getL1BatchNumber env of
        Inl e \<Rightarrow> (Inl e, st)
      | Inr currentBatch \<Rightarrow>
          let lastBatch = or_default (lastL1Batch st) (currentBatch - 1) in
          if currentBatch > lastBatch then
            (case scan_batches env [lastBatch + 1..currentBatch] [] of
               Inl e \<Rightarrow> (Inl e, st)
             | Inr returnData \<Rightarrow> (Inr returnData, st\<lparr>lastL1Batch := Some currentBatch\<rparr>))
          else (Inr [], st))"

subsection \<open>transactionConfirmed\<close>

text \<open>\<^verbatim>\<open>receipt && receipt.blockNumber\<close>: a receipt in block \<open>0\<close> is falsy.\<close>

definition poll_transactionConfirmed ::
  "poll_env \<Rightarrow> static_data \<Rightarrow> (error + event list) \<times> static_data" where
  "poll_transactionConfirmed env st =
     (let alreadyTriggered = (txHash env \<in> tx_triggered st) in
      if \<not> alreadyTriggered then
        (case getTransactionReceipt env (txHash env) of
           Inl e \<Rightarrow> (Inl e, st)
         | Inr None \<Rightarrow> (Inr [], st)
         | Inr (Some r) \<Rightarrow>
             if rc_blockNumber r \<noteq> 0 then
               (case getBlockNumber env of
                  Inl e \<Rightarrow> (Inl e, st)
                | Inr currentBlock \<Rightarrow>
                    let confs = currentBlock - rc_blockNumber r + 1 in
                    if confs \<ge> confirmations env then
                      (Inr [TransactionConfirmedEvent (rc_hash r)
                              (if rc_status r = Some 1 then ''success'' else ''failed'')
                              (rc_blockNumber r) confs (rc_from r) (rc_to r)
                              (map_option bigint_toString (rc_gasUsed r)) (config_name env)],
                       st\<lparr>tx_triggered := insert (txHash env) (tx_triggered st)\<rparr>)
                    else (Inr [], st))
             else (Inr [], st))
      else (Inr [], st))"

subsection \<open>ethReceived and ethSent\<close>

text \<open>
  The loop over the transactions of one block. \<^verbatim>\<open>tx.value ? formatEther(tx.value) : '0'\<close>
  renders a value other than \<open>0\<close>, and throws where the rendering does.
\<close>

fun eth_items ::
  "poll_env \<Rightarrow> block \<Rightarrow> transaction list \<Rightarrow> event list \<Rightarrow> error + event list" where
  "eth_items env b [] returnData = Inr returnData"
| "eth_items env b (tx # rest) returnData =
     (let isReceived = (map_option toLowerCase (tx_to tx) = Some (toLowerCase (watchAddress env)));
          isSent = (map_option toLowerCase (tx_from tx) = Some (toLowerCase (watchAddress env)))
      in if (triggerOn env = EthReceived \<and> isReceived) \<or> (triggerOn env = EthSent \<and> isSent)
         then
           (case (case tx_value tx of
                    None \<Rightarrow> Inr ''0''
                  | Some v \<Rightarrow> if v = 0 then Inr ''0'' else formatEther v) of
              Inl e \<Rightarrow> Inl e
            | Inr valueEth \<Rightarrow>
                eth_items env b rest
                  (returnData @ [EthTransferEvent
                                   (if triggerOn env = EthReceived then ''received'' else ''sent'')
                                   (tx_hash tx) (tx_from tx) (tx_to tx)
                                   (map_option bigint_toString (tx_value tx)) valueEth
                                   (blk_number b) (config_name env)]))
         else eth_items env b rest returnData)"

fun scan_eth_blocks :: "poll_env \<Rightarrow> int list \<Rightarrow> event list \<Rightarrow> error + event list" where
  "scan_eth_blocks env [] returnData = Inr returnData"
| "scan_eth_blocks env (blockNum # rest) returnData =
     (case getBlockWithTxs env blockNum of
        Inl e \<Rightarrow> Inl e
      | Inr None \<Rightarrow> scan_eth_blocks env rest returnData
      | Inr (Some b) \<Rightarrow>
          (case blk_prefetchedTransactions b of
             None \<Rightarrow> scan_eth_blocks env rest returnData
           | Some txs \<Rightarrow>
               (case eth_items env b txs returnData of
                  Inl e \<Rightarrow> Inl e
                | Inr returnData' \<Rightarrow> scan_eth_blocks env rest returnData')))"

definition poll_ethTransfer :: "poll_env \<Rightarrow> static_data \<Rightarrow> (error + event list) \<times> static_data" where
  "poll_ethTransfer env st =
     (if \<not> isAddress env (watchAddress env) then (Inl (Error ''Invalid watch address''), st)
      else
        (case getBlockNumber env of
           Inl e \<Rightarrow> (Inl e, st)
         | Inr currentBlock \<Rightarrow>
             let lastCheckedBlock' = or_default (lastCheckedBlock st) (currentBlock - 1) in
             if currentBlock > lastCheckedBlock' then
               (case scan_eth_blocks env [lastCheckedBlock' + 1..currentBlock] [] of
                  Inl e \<Rightarrow> (Inl e, st)
                | Inr returnData \<Rightarrow>
                    (Inr returnData, st\<lparr>lastCheckedBlock := Some currentBlock\<rparr>))
             else (Inr [], st)))"

subsection \<open>tokenTransfer and nftTransfer\<close>

text \<open>
  \<^verbatim>\<open>log.topics[i].slice(26)\<close> throws a \<open>TypeError\<close> when the topic is missing;
  \<^verbatim>\<open>BigInt(log.data)\<close> throws a \<open>SyntaxError\<close> on a string that is no integer literal.
\<close>

definition filtered_out :: "poll_env \<Rightarrow> string \<Rightarrow> string \<Rightarrow> bool" where
  "filtered_out env from to =
     (filterAddress env \<noteq> []
      \<and> toLowerCase from \<noteq> toLowerCase (filterAddress env)
      \<and> toLowerCase to \<noteq> toLowerCase (filterAddress env))"

fun token_items :: "poll_env \<Rightarrow> log list \<Rightarrow> event list \<Rightarrow> error + event list" where
  "token_items env [] returnData = Inr returnData"
| "token_items env (lg # rest) returnData =
     (if length (log_topics lg) < 3 then Inl TypeError
      else
        let from = ''0x'' @ drop 26 (log_topics lg ! 1);
            to = ''0x'' @ drop 26 (log_topics lg ! 2)
        in case BigInt (log_data lg) of
             Inl e \<Rightarrow> Inl e
           | Inr v \<Rightarrow>
               if filtered_out env from to then token_items env rest returnData
               else token_items env rest
                      (returnData @ [TokenTransferEvent (contractAddress env) from to
                                       (bigint_toString v) (log_blockNumber lg)
                                       (log_transactionHash lg) (log_index lg)
                                       (config_name env)]))"

definition poll_tokenTransfer :: "poll_env \<Rightarrow> static_data \<Rightarrow> (error + event list) \<times> static_data" where
  "poll_tokenTransfer env st =
     (case getBlockNumber env of
        Inl e \<Rightarrow> (Inl e, st)
      | Inr currentBlock \<Rightarrow>
          let lastCheckedBlock' = or_default (lastTokenBlock st) (currentBlock - 1) in
          if currentBlock > lastCheckedBlock' then
            let transferTopic = ethers_id env ''Transfer(address,address,uint256)'' in
            (case getLogs env \<lparr>flt_address = contractAddress env, flt_topics = [transferTopic],
                               flt_fromBlock = lastCheckedBlock' + 1,
                               flt_toBlock = currentBlock\<rparr> of
               Inl e \<Rightarrow> (Inl e, st)
             | Inr logs \<Rightarrow>
                 (case token_items env logs [] of
                    Inl e \<Rightarrow> (Inl e, st)
                  | Inr returnData \<Rightarrow>
                      (Inr returnData, st\<lparr>lastTokenBlock := Some currentBlock\<rparr>)))
          else (Inr [], st))"

fun nft_items :: "poll_env \<Rightarrow> log list \<Rightarrow> event list \<Rightarrow> error + event list" where
  "nft_items env [] returnData = Inr returnData"
| "nft_items env (lg # rest) returnData =
     (if length (log_topics lg) \<ge> 4 then
        let from = ''0x'' @ drop 26 (log_topics lg ! 1);
            to = ''0x'' @ drop 26 (log_topics lg ! 2)
        in case BigInt (log_topics lg ! 3) of
             Inl e \<Rightarrow> Inl e
           | Inr tokenId \<Rightarrow>
               if filtered_out env from to then nft_items env rest returnData
               else nft_items env rest
                      (returnData @ [NftTransferEvent (contractAddress env) from to
                                       (bigint_toString tokenId) (log_blockNumber lg)
                                       (log_transactionHash lg) (log_index lg)
                                       (config_name env)])
      else nft_items env rest returnData)"

definition poll_nftTransfer :: "poll_env \<Rightarrow> static_data \<Rightarrow> (error + event list) \<times> static_data" where
  "poll_nftTransfer env st =
     (case getBlockNumber env of
        Inl e \<Rightarrow> (Inl e, st)
      | Inr currentBlock \<Rightarrow>
          let lastCheckedBlock' = or_default (lastNftBlock st) (currentBlock - 1) in
          if currentBlock > lastCheckedBlock' then
            let transferTopic = ethers_id env ''Transfer(address,address,uint256)'' in
            (case getLogs env \<lparr>flt_address = contractAddress env, flt_topics = [transferTopic],
                               flt_fromBlock = lastCheckedBlock' + 1,
                               flt_toBlock = currentBlock\<rparr> of
               Inl e \<Rightarrow> (Inl e, st)
             | Inr logs \<Rightarrow>
                 (case nft_items env logs [] of
                    Inl e \<Rightarrow> (Inl e, st)
                  | Inr returnData \<Rightarrow>
                      (Inr returnData, st\<lparr>lastNftBlock := Some currentBlock\<rparr>)))
          else (Inr [], st))"

subsection \<open>contractEvent\<close>

text \<open>
  A log that \<^verbatim>\<open>parseLog\<close> throws on is skipped by the \<^verbatim>\<open>catch\<close>; a \<^verbatim>\<open>null\<close> result is
  pushed with no name and no arguments.
\<close>

fun contract_items :: "poll_env \<Rightarrow> interface \<Rightarrow> log list \<Rightarrow> event list \<Rightarrow> event list" where
  "contract_items env iface [] returnData = returnData"
| "contract_items env iface (lg # rest) returnData =
     (case if_parseLog iface (log_topics lg) (log_data lg) of
        Inl e \<Rightarrow> contract_items env iface rest returnData
      | Inr decoded \<Rightarrow>
          contract_items env iface rest
            (returnData @ [ContractEventEvent (map_option dl_name decoded) (contractAddress env)
                             (case decoded of None \<Rightarrow> [] | Some d \<Rightarrow> dl_args d)
                             (log_blockNumber lg) (log_transactionHash lg) (log_index lg)
                             (config_name env)]))"

definition poll_contractEvent :: "poll_env \<Rightarrow> static_data \<Rightarrow> (error + event list) \<times> static_data" where
  "poll_contractEvent env st =
     (case getBlockNumber env of
        Inl e \<Rightarrow> (Inl e, st)
      | Inr currentBlock \<Rightarrow>
          let lastCheckedBlock' = or_default (lastEventBlock st) (currentBlock - 1) in
          if currentBlock > lastCheckedBlock' then
            (case ethers_Interface env (eventAbi env) of
               Inl e \<Rightarrow> (Inl e, st)
             | Inr iface \<Rightarrow>
                 (case if_eventTopics iface of
                    [] \<Rightarrow> (Inr [], st\<lparr>lastEventBlock := Some currentBlock\<rparr>)
                  | eventTopic # _ \<Rightarrow>
                      if eventTopic \<noteq> [] then
                        (case getLogs env \<lparr>flt_address = contractAddress env,
                                           flt_topics = [eventTopic],
                                           flt_fromBlock = lastCheckedBlock' + 1,
                                           flt_toBlock = currentBlock\<rparr> of
                           Inl e \<Rightarrow> (Inl e, st)
                         | Inr logs \<Rightarrow>
                             (Inr (contract_items env iface logs []),
                              st\<lparr>lastEventBlock := Some currentBlock\<rparr>))
                      else (Inr [], st\<lparr>lastEventBlock := Some currentBlock\<rparr>)))
          else (Inr [], st))"

subsection \<open>blockFinalized\<close>

text \<open>
  The loop writes the latch \<^verbatim>\<open>batch_executed_<n>\<close> into the static data as it goes, so
  the static data is threaded through the recursion and is, when a later iteration
  throws, what the earlier iterations have made it. There is no guard around the loop,
  and the assignment of \<^verbatim>\<open>lastFinalizedBatch\<close> follows it unconditionally.
\<close>

fun scan_finalized ::
  "poll_env \<Rightarrow> int list \<Rightarrow> event list \<Rightarrow> static_data \<Rightarrow> (error + event list) \<times> static_data" where
  "scan_finalized env [] returnData st = (Inr returnData, st)"
| "scan_finalized env (batchNum # rest) returnData st =
     (case getL1BatchDetails env batchNum of
        Inl e \<Rightarrow> (Inl e, st)
      | Inr details \<Rightarrow>
          let wasExecuted = (batchNum \<in> batch_executed st) in
          if bd_status details = ''verified'' \<and> truthy_string (bd_executeTxHash details)
             \<and> \<not> wasExecuted
          then scan_finalized env rest
                 (returnData @ [BlockFinalizedEvent (bd_number details) (bd_status details)
                                  (bd_commitTxHash details) (bd_proveTxHash details)
                                  (bd_executeTxHash details) (config_name env)])
                 (st\<lparr>batch_executed := insert batchNum (batch_executed st)\<rparr>)
          else scan_finalized env rest returnData st)"

definition poll_blockFinalized :: "poll_env \<Rightarrow> static_data \<Rightarrow> (error + event list) \<times> static_data" where
  "poll_blockFinalized env st =
     (case getL1BatchNumber env of
        Inl e \<Rightarrow> (Inl e, st)
      | Inr currentBatch \<Rightarrow>
          let lastCheckedBatch = or_default (lastFinalizedBatch st) (currentBatch - 10) in
          (case scan_finalized env [lastCheckedBatch + 1..currentBatch] [] st of
             (Inl e, st') \<Rightarrow> (Inl e, st')
           | (Inr returnData, st') \<Rightarrow>
               (Inr returnData, st'\<lparr>lastFinalizedBatch := Some currentBatch\<rparr>)))"

subsection \<open>balanceChange\<close>

text \<open>
  The snapshot is the string \<^verbatim>\<open>currentBalance.toString()\<close>, which is the only value
  the poller ever assigns to \<^verbatim>\<open>lastBalance\<close>, and the test that decides the emission is
  \<^verbatim>\<open>currentBalance.toString() !== lastBalance\<close>. The three \<^verbatim>\<open>formatEther\<close> calls of
  the item are evaluated in source order, before the snapshot is assigned.
\<close>

definition poll_balanceChange :: "poll_env \<Rightarrow> static_data \<Rightarrow> (error + event list) \<times> static_data" where
  "poll_balanceChange env st =
     (if \<not> isAddress env (watchAddress env) then (Inl (Error ''Invalid watch address''), st)
      else
        (case getBalance env (watchAddress env) of
           Inl e \<Rightarrow> (Inl e, st)
         | Inr currentBalance \<Rightarrow>
             (case lastBalance st of
                None \<Rightarrow> (Inr [], st\<lparr>lastBalance := Some (bigint_toString currentBalance)\<rparr>)
              | Some lastBalance' \<Rightarrow>
                  if bigint_toString currentBalance \<noteq> lastBalance' then
                    (case BigInt lastBalance' of
                       Inl e \<Rightarrow> (Inl e, st)
                     | Inr previousBalance \<Rightarrow>
                         let change = currentBalance - previousBalance in
                         (case formatEther previousBalance of
                            Inl e \<Rightarrow> (Inl e, st)
                          | Inr previousBalanceEth \<Rightarrow>
                              (case formatEther currentBalance of
                                 Inl e \<Rightarrow> (Inl e, st)
                               | Inr currentBalanceEth \<Rightarrow>
                                   (case formatEther change of
                                      Inl e \<Rightarrow> (Inl e, st)
                                    | Inr changeEth \<Rightarrow>
                                        (Inr [BalanceChangeEvent (watchAddress env) lastBalance'
                                                previousBalanceEth
                                                (bigint_toString currentBalance)
                                                currentBalanceEth (bigint_toString change)
                                                changeEth
                                                (if change > 0 then ''increase''
                                                 else ''decrease'')
                                                (config_name env)],
                                         st\<lparr>lastBalance :=
                                              Some (bigint_toString currentBalance)\<rparr>)))))
                  else (Inr [], st\<lparr>lastBalance := Some (bigint_toString currentBalance)\<rparr>))))"

subsection \<open>The switch, and sequences of invocations\<close>

definition poll :: "poll_env \<Rightarrow> static_data \<Rightarrow> (error + event list) \<times> static_data" where
  "poll env st =
     (case triggerOn env of
        NewBlock \<Rightarrow> poll_newBlock env st
      | NewL1Batch \<Rightarrow> poll_newL1Batch env st
      | TransactionConfirmed \<Rightarrow> poll_transactionConfirmed env st
      | EthReceived \<Rightarrow> poll_ethTransfer env st
      | EthSent \<Rightarrow> poll_ethTransfer env st
      | TokenTransfer \<Rightarrow> poll_tokenTransfer env st
      | NftTransfer \<Rightarrow> poll_nftTransfer env st
      | ContractEvent \<Rightarrow> poll_contractEvent env st
      | BlockFinalized \<Rightarrow> poll_blockFinalized env st
      | BalanceChange \<Rightarrow> poll_balanceChange env st)"

text \<open>
  A sequence of invocations on the same static data, each with its own surroundings. An
  invocation that throws emits nothing; what it wrote into the static data stays.
\<close>

fun run_polls :: "static_data \<Rightarrow> poll_env list \<Rightarrow> event list" where
  "run_polls st [] = []"
| "run_polls st (env # envs) =
     (case poll env st of
        (Inl e, st') \<Rightarrow> run_polls st' envs
      | (Inr items, st') \<Rightarrow> items @ run_polls st' envs)"

fun final_state :: "static_data \<Rightarrow> poll_env list \<Rightarrow> static_data" where
  "final_state st [] = st"
| "final_state st (env # envs) = final_state (snd (poll env st)) envs"

subsection \<open>Vocabulary for the properties of the poller\<close>

text \<open>
  The stored watermark of a trigger kind and the chain tip it is compared with. The two
  kinds without a block or batch watermark have none.
\<close>

fun watermark :: "trigger \<Rightarrow> static_data \<Rightarrow> int option" where
  "watermark NewBlock st = lastBlock st"
| "watermark NewL1Batch st = lastL1Batch st"
| "watermark EthReceived st = lastCheckedBlock st"
| "watermark EthSent st = lastCheckedBlock st"
| "watermark TokenTransfer st = lastTokenBlock st"
| "watermark NftTransfer st = lastNftBlock st"
| "watermark ContractEvent st = lastEventBlock st"
| "watermark BlockFinalized st = lastFinalizedBatch st"
| "watermark TransactionConfirmed st = None"
| "watermark BalanceChange st = None"

fun set_watermark :: "trigger \<Rightarrow> int option \<Rightarrow> static_data \<Rightarrow> static_data" where
  "set_watermark NewBlock w st = st\<lparr>lastBlock := w\<rparr>"
| "set_watermark NewL1Batch w st = st\<lparr>lastL1Batch := w\<rparr>"
| "set_watermark EthReceived w st = st\<lparr>lastCheckedBlock := w\<rparr>"
| "set_watermark EthSent w st = st\<lparr>lastCheckedBlock := w\<rparr>"
| "set_watermark TokenTransfer w st = st\<lparr>lastTokenBlock := w\<rparr>"
| "set_watermark NftTransfer w st = st\<lparr>lastNftBlock := w\<rparr>"
| "set_watermark ContractEvent w st = st\<lparr>lastEventBlock := w\<rparr>"
| "set_watermark BlockFinalized w st = st\<lparr>lastFinalizedBatch := w\<rparr>"
| "set_watermark TransactionConfirmed w st = st"
| "set_watermark BalanceChange w st = st"

fun tip :: "trigger \<Rightarrow> poll_env \<Rightarrow> error + int" where
  "tip NewL1Batch env = getL1BatchNumber env"
| "tip BlockFinalized env = getL1BatchNumber env"
| "tip k env = getBlockNumber env"

text \<open>The kinds whose scan and watermark write sit under \<^verbatim>\<open>if (current > last)\<close>.\<close>

definition guarded_kinds :: "trigger set" where
  "guarded_kinds =
     {NewBlock, NewL1Batch, EthReceived, EthSent, TokenTransfer, NftTransfer, ContractEvent}"

text \<open>
  The scan that a guarded kind performs over the units \<open>lo..hi\<close>: what the body of the
  guard computes before it writes the watermark.
\<close>

definition scan_logs ::
  "poll_env \<Rightarrow> (poll_env \<Rightarrow> log list \<Rightarrow> event list \<Rightarrow> error + event list) \<Rightarrow> int \<Rightarrow> int
     \<Rightarrow> error + event list" where
  "scan_logs env items lo hi =
     (case getLogs env \<lparr>flt_address = contractAddress env,
                        flt_topics = [ethers_id env ''Transfer(address,address,uint256)''],
                        flt_fromBlock = lo, flt_toBlock = hi\<rparr> of
        Inl e \<Rightarrow> Inl e
      | Inr logs \<Rightarrow> items env logs [])"

definition scan_contract :: "poll_env \<Rightarrow> int \<Rightarrow> int \<Rightarrow> error + event list" where
  "scan_contract env lo hi =
     (case ethers_Interface env (eventAbi env) of
        Inl e \<Rightarrow> Inl e
      | Inr iface \<Rightarrow>
          (case if_eventTopics iface of
             [] \<Rightarrow> Inr []
           | eventTopic # _ \<Rightarrow>
               if eventTopic \<noteq> [] then
                 (case getLogs env \<lparr>flt_address = contractAddress env, flt_topics = [eventTopic],
                                    flt_fromBlock = lo, flt_toBlock = hi\<rparr> of
                    Inl e \<Rightarrow> Inl e
                  | Inr logs \<Rightarrow> Inr (contract_items env iface logs []))
               else Inr []))"

fun scan :: "trigger \<Rightarrow> poll_env \<Rightarrow> int \<Rightarrow> int \<Rightarrow> error + event list" where
  "scan NewBlock env lo hi = scan_blocks env [lo..hi] []"
| "scan NewL1Batch env lo hi = scan_batches env [lo..hi] []"
| "scan EthReceived env lo hi = scan_eth_blocks env [lo..hi] []"
| "scan EthSent env lo hi = scan_eth_blocks env [lo..hi] []"
| "scan TokenTransfer env lo hi = scan_logs env token_items lo hi"
| "scan NftTransfer env lo hi = scan_logs env nft_items lo hi"
| "scan ContractEvent env lo hi = scan_contract env lo hi"
| "scan k env lo hi = Inr []"

text \<open>The address check that precedes the tip lookup of the two ETH kinds.\<close>

definition address_checked :: "poll_env \<Rightarrow> bool" where
  "address_checked env =
     (triggerOn env \<in> {EthReceived, EthSent} \<longrightarrow> isAddress env (watchAddress env))"

text \<open>The transaction hash, resp. the batch number, that an emitted item reports.\<close>

fun confirmed_hash :: "event \<Rightarrow> string option" where
  "confirmed_hash (TransactionConfirmedEvent h s b c f t g n) = Some h"
| "confirmed_hash ev = None"

fun finalized_batch :: "event \<Rightarrow> int option" where
  "finalized_batch (BlockFinalizedEvent b s c p x n) = Some b"
| "finalized_batch ev = None"

text \<open>
  The latch keys: the transaction hash that a \<open>transactionConfirmed\<close> invocation watches
  (its \<^verbatim>\<open>txHash\<close> parameter) and the batch number that an iteration of the
  \<open>blockFinalized\<close> loop looks at (its \<^verbatim>\<open>batchNum\<close>). An item of these two kinds is
  pushed under the key whose latch is tested before it and set after it.
\<close>

datatype latch_key = TxKey string | BatchKey int

definition latched :: "static_data \<Rightarrow> latch_key set" where
  "latched st = TxKey ` tx_triggered st \<union> BatchKey ` batch_executed st"

definition latch_item :: "event \<Rightarrow> bool" where
  "latch_item ev = (confirmed_hash ev \<noteq> None \<or> finalized_batch ev \<noteq> None)"

text \<open>
  The pushes of the \<open>blockFinalized\<close> loop over the given batch numbers, each with the
  loop index at which it happens. It follows \<open>scan_finalized\<close> push by push; that the
  items are the same is part of what is proved of it.
\<close>

fun finalized_pushes :: "poll_env \<Rightarrow> int list \<Rightarrow> static_data \<Rightarrow> (int \<times> event) list" where
  "finalized_pushes env [] st = []"
| "finalized_pushes env (batchNum # rest) st =
     (case getL1BatchDetails env batchNum of
        Inl e \<Rightarrow> []
      | Inr details \<Rightarrow>
          if bd_status details = ''verified'' \<and> truthy_string (bd_executeTxHash details)
             \<and> batchNum \<notin> batch_executed st
          then (batchNum,
                BlockFinalizedEvent (bd_number details) (bd_status details)
                  (bd_commitTxHash details) (bd_proveTxHash details)
                  (bd_executeTxHash details) (config_name env))
               # finalized_pushes env rest
                   (st\<lparr>batch_executed := insert batchNum (batch_executed st)\<rparr>)
          else finalized_pushes env rest st)"

text \<open>
  The items that one invocation of a latched kind emits, each with the key it was pushed
  under; an invocation that throws, or one of another kind, contributes none. Then the
  same over a sequence of invocations.
\<close>

definition keyed_items :: "poll_env \<Rightarrow> static_data \<Rightarrow> (latch_key \<times> event) list" where
  "keyed_items env st =
     (case poll env st of
        (Inl e, st') \<Rightarrow> []
      | (Inr items, st') \<Rightarrow>
          (case triggerOn env of
             TransactionConfirmed \<Rightarrow> map (\<lambda>item. (TxKey (txHash env), item)) items
           | BlockFinalized \<Rightarrow>
               (case getL1BatchNumber env of
                  Inl e \<Rightarrow> []
                | Inr currentBatch \<Rightarrow>
                    map (\<lambda>(n, item). (BatchKey n, item))
                      (finalized_pushes env
                         [or_default (lastFinalizedBatch st) (currentBatch - 10) + 1..currentBatch]
                         st))
           | _ \<Rightarrow> []))"

fun run_keyed :: "static_data \<Rightarrow> poll_env list \<Rightarrow> (latch_key \<times> event) list" where
  "run_keyed st [] = []"
| "run_keyed st (env # envs) = keyed_items env st @ run_keyed (snd (poll env st)) envs"

text \<open>A balance of the chain is an unsigned 256-bit quantity.\<close>

definition is_uint256 :: "int \<Rightarrow> bool" where
  "is_uint256 v = (0 \<le> v \<and> v < 2 ^ 256)"

text \<open>
  A provider that answers a receipt or batch query with the receipt of that hash, resp. the
  details of that batch.
\<close>

definition answers_what_is_asked :: "poll_env \<Rightarrow> bool" where
  "answers_what_is_asked env =
     ((\<forall>h r. getTransactionReceipt env h = Inr (Some r) \<longrightarrow> rc_hash r = h)
      \<and> (\<forall>n d. getL1BatchDetails env n = Inr d \<longrightarrow> bd_number d = n))"

subsection \<open>Concrete surroundings for the closed theorems\<close>

definition offline_env :: poll_env where
  "offline_env =
     \<lparr>triggerOn = NewBlock, txHash = [], confirmations = 1, watchAddress = [],
      contractAddress = [], filterAddress = [], eventAbi = [],
      config_name = ''zkSync Era Mainnet'',
      getBlockNumber = Inl (RpcFailure ''offline''),
      getL1BatchNumber = Inl (RpcFailure ''offline''),
      getBlock = (\<lambda>n. Inl (RpcFailure ''offline'')),
      getBlockWithTxs = (\<lambda>n. Inl (RpcFailure ''offline'')),
      getL1BatchDetails = (\<lambda>n. Inl (RpcFailure ''offline'')),
      getTransactionReceipt = (\<lambda>h. Inl (RpcFailure ''offline'')),
      getLogs = (\<lambda>f. Inl (RpcFailure ''offline'')),
      getBalance = (\<lambda>a. Inl (RpcFailure ''offline'')),
      isAddress = (\<lambda>a. a = ''0x0000000000000000000000000000000000000000''),
      ethers_id = (\<lambda>s. []),
      ethers_Interface = (\<lambda>s. Inl (Error ''invalid ABI''))\<rparr>"

definition fresh_static_data :: static_data where
  "fresh_static_data =
     \<lparr>lastBlock = None, lastL1Batch = None, lastCheckedBlock = None, lastTokenBlock = None,
      lastNftBlock = None, lastEventBlock = None, lastFinalizedBatch = None,
      lastBalance = None, tx_triggered = {}, batch_executed = {}\<rparr>"

definition plain_block :: "int \<Rightarrow> block" where
  "plain_block n =
     \<lparr>blk_number = n, blk_hash = None, blk_timestamp = 0, blk_gasLimit = None,
      blk_gasUsed = None, blk_transactions = None, blk_prefetchedTransactions = None\<rparr>"

definition verified_batch :: "int \<Rightarrow> batch_details" where
  "verified_batch n =
     \<lparr>bd_number = n, bd_timestamp = 0, bd_l1TxCount = 0, bd_l2TxCount = 0,
      bd_rootHash = None, bd_status = ''verified'', bd_commitTxHash = None,
      bd_proveTxHash = None, bd_executeTxHash = Some ''0xe1''\<rparr>"

definition sealed_batch :: "int \<Rightarrow> batch_details" where
  "sealed_batch n = (verified_batch n)\<lparr>bd_status := ''sealed'', bd_executeTxHash := None\<rparr>"

definition transfer_log :: log where
  "transfer_log =
     \<lparr>log_topics =
        [''0xddf252ad1be2c89b69c2b068fc378daa952ba7f163c4a11628f55a4df523b3ef'',
         ''0x000000000000000000000000aaaaaaaaaaaaaaaaaaaaaaaaaaaaaaaaaaaaaaaa'',
         ''0x000000000000000000000000bbbbbbbbbbbbbbbbbbbbbbbbbbbbbbbbbbbbbbbb''],
      log_data = ''0x00000000000000000000000000000000000000000000000000000000000001f4'',
      log_blockNumber = 103, log_transactionHash = ''0x77'', log_index = 0\<rparr>"

definition token_env :: poll_env where
  "token_env =
     offline_env\<lparr>triggerOn := TokenTransfer, contractAddress := ''0xC0'',
       getBlockNumber := Inr 105,
       ethers_id := (\<lambda>s. ''0xddf252ad1be2c89b69c2b068fc378daa952ba7f163c4a11628f55a4df523b3ef''),
       getLogs := (\<lambda>f. if flt_fromBlock f \<le> 103 \<and> 103 \<le> flt_toBlock f
                          then Inr [transfer_log] else Inr [])\<rparr>"

definition confirming_env :: poll_env where
  "confirming_env =
     offline_env\<lparr>triggerOn := TransactionConfirmed, txHash := ''0xabc'',
       getBlockNumber := Inr 7,
       getTransactionReceipt :=
         (\<lambda>h. Inr (Some \<lparr>rc_hash = h, rc_status = Some 1, rc_blockNumber = 5,
                            rc_from = ''0x01'', rc_to = None, rc_gasUsed = None\<rparr>))\<rparr>"

definition finalizing_env :: poll_env where
  "finalizing_env =
     offline_env\<lparr>triggerOn := BlockFinalized, getL1BatchNumber := Inr 102,
       getL1BatchDetails := (\<lambda>n. Inr (verified_batch n))\<rparr>"

definition failing_env :: poll_env where
  "failing_env =
     offline_env\<lparr>triggerOn := BlockFinalized, getL1BatchNumber := Inr 102,
       getL1BatchDetails := (\<lambda>n. if n = 101 then Inr (verified_batch 101)
                                   else Inl (RpcFailure ''timeout''))\<rparr>"

definition block_env :: poll_env where
  "block_env =
     offline_env\<lparr>getBlockNumber := Inr 5, getBlock := (\<lambda>n. Inr (Some (plain_block n)))\<rparr>"

definition backlog_env :: poll_env where
  "backlog_env =
     offline_env\<lparr>triggerOn := BlockFinalized, getL1BatchNumber := Inr 12,
       getL1BatchDetails :=
         (\<lambda>n. Inr (if n = 3 \<or> n = 12 then verified_batch n else sealed_batch n))\<rparr>"

definition earlier_balance_env :: poll_env where
  "earlier_balance_env =
     offline_env\<lparr>triggerOn := BalanceChange,
       watchAddress := ''0x0000000000000000000000000000000000000000'',
       getBalance := (\<lambda>a. Inr 5)\<rparr>"

definition balance_env :: poll_env where
  "balance_env =
     offline_env\<lparr>triggerOn := BalanceChange,
       watchAddress := ''0x0000000000000000000000000000000000000000'',
       getBalance := (\<lambda>a. Inr 7)\<rparr>"

section \<open>ZkSync.node.ts and transport/zksyncClient.ts: execute\<close>

text \<open>
  The part of \<^verbatim>\<open>execute\<close> that handles one input item, for the resources
  \<^verbatim>\<open>account\<close> (all five operations), \<^verbatim>\<open>transaction\<close> (operation \<^verbatim>\<open>sendEth\<close>) and
  \<^verbatim>\<open>accountAbstraction\<close> (operation \<^verbatim>\<open>getAccountType\<close>). Next to its result, an item
  yields the list of the calls it has awaited on the provider or the wallet, in order.
\<close>

datatype request =
    Req_getNetwork
  | Req_getBalance string
  | Req_getTransactionCount string
  | Req_getCode string
  | Req_sendTransaction string int "string option"
  | Req_wait string

datatype account_operation =
    AccGetBalance | AccGetNonce | AccGetTransactionCount | AccIsContract | AccGetCode

datatype operation = Account account_operation | SendEth | GetAccountType

record credentials =
  cr_network :: string
  cr_customRpcUrl :: string
  cr_privateKey :: string

record parameters =
  p_address :: string
  p_toAddress :: string
  p_amount :: string
  p_usePaymaster :: bool

record tx_response =
  tr_hash :: string
  tr_from :: string
  tr_to :: "string option"
  tr_value :: int

datatype item_result =
    BalanceResult string string string
  | NonceResult string int
  | TransactionCountResult string int
  | IsContractResult string bool
  | CodeResult string string
  | SendEthResult string string "string option" string string "int option" "string option"
  | AccountTypeResult string string bool

text \<open>
  The answers of the provider and the wallet to one item, and the ethers functions used:
  \<^verbatim>\<open>isAddress\<close>, \<^verbatim>\<open>getAddress\<close> (which throws on an address it does not accept) and
  the \<^verbatim>\<open>Wallet\<close> constructor (which throws on a key it does not accept).
\<close>

record execute_env =
  x_isAddress :: "string \<Rightarrow> bool"
  x_getAddress :: "string \<Rightarrow> error + string"
  x_acceptsKey :: "string \<Rightarrow> bool"
  x_getNetwork :: "error + int"
  x_getBalance :: "string \<Rightarrow> error + int"
  x_getTransactionCount :: "string \<Rightarrow> error + int"
  x_getCode :: "string \<Rightarrow> error + string"
  x_sendTransaction :: "string \<Rightarrow> int \<Rightarrow> string option \<Rightarrow> error + tx_response"
  x_wait :: "string \<Rightarrow> error + receipt option"

record client =
  cl_wallet :: bool
  cl_chainId :: int

text \<open>
  \<^verbatim>\<open>createZkSyncClient(network, customRpcUrl, privateKey)\<close>: the wallet is built when the
  key is a non-empty string, and \<^verbatim>\<open>await provider.getNetwork()\<close> is the last step. The
  configuration gives the provider its URL and the client its name, which the modelled
  operations do not read; the provider's answers are those of \<open>execute_env\<close>.
\<close>

definition createZkSyncClient ::
  "execute_env \<Rightarrow> string \<Rightarrow> string \<Rightarrow> string \<Rightarrow> (error + client) \<times> request list" where
  "createZkSyncClient env network customRpcUrl privateKey =
     (let config = getNetworkConfig network (Some customRpcUrl) in
      if privateKey \<noteq> [] \<and> \<not> x_acceptsKey env privateKey then (Inl TypeError, [])
      else
        (case x_getNetwork env of
           Inl e \<Rightarrow> (Inl e, [Req_getNetwork])
         | Inr networkChainId \<Rightarrow>
             (Inr \<lparr>cl_wallet = (privateKey \<noteq> []), cl_chainId = networkChainId\<rparr>,
              [Req_getNetwork])))"

text \<open>
  \<^verbatim>\<open>formatAddress(address)\<close> as the first field of a result: a throw of \<^verbatim>\<open>getAddress\<close>
  fails the item, and so does a throw in a field that follows.
\<close>

definition with_formatAddress ::
  "execute_env \<Rightarrow> string \<Rightarrow> (string \<Rightarrow> error + item_result) \<Rightarrow> request list
     \<Rightarrow> (error + item_result) \<times> request list" where
  "with_formatAddress env address mk trace =
     (case x_getAddress env address of
        Inl e \<Rightarrow> (Inl e, trace)
      | Inr a \<Rightarrow> (mk a, trace))"

definition execute_account ::
  "execute_env \<Rightarrow> account_operation \<Rightarrow> string \<Rightarrow> request list
     \<Rightarrow> (error + item_result) \<times> request list" where
  "execute_account env operation address trace =
     (if \<not> x_isAddress env address then (Inl (Error ''Invalid Ethereum address''), trace)
      else
        (case operation of
           AccGetBalance \<Rightarrow>
             (case x_getBalance env address of
                Inl e \<Rightarrow> (Inl e, trace @ [Req_getBalance address])
              | Inr balance \<Rightarrow>
                  with_formatAddress env address
                    (\<lambda>a. case formatEther balance of
                            Inl e \<Rightarrow> Inl e
                          | Inr balanceEth \<Rightarrow>
                              Inr (BalanceResult a (bigint_toString balance) balanceEth))
                    (trace @ [Req_getBalance address]))
         | AccGetNonce \<Rightarrow>
             (case x_getTransactionCount env address of
                Inl e \<Rightarrow> (Inl e, trace @ [Req_getTransactionCount address])
              | Inr nonce \<Rightarrow>
                  with_formatAddress env address (\<lambda>a. Inr (NonceResult a nonce))
                    (trace @ [Req_getTransactionCount address]))
         | AccGetTransactionCount \<Rightarrow>
             (case x_getTransactionCount env address of
                Inl e \<Rightarrow> (Inl e, trace @ [Req_getTransactionCount address])
              | Inr count \<Rightarrow>
                  with_formatAddress env address (\<lambda>a. Inr (TransactionCountResult a count))
                    (trace @ [Req_getTransactionCount address]))
         | AccIsContract \<Rightarrow>
             (case x_getCode env address of
                Inl e \<Rightarrow> (Inl e, trace @ [Req_getCode address])
              | Inr code \<Rightarrow>
                  with_formatAddress env address (\<lambda>a. Inr (IsContractResult a (code \<noteq> ''0x'')))
                    (trace @ [Req_getCode address]))
         | AccGetCode \<Rightarrow>
             (case x_getCode env address of
                Inl e \<Rightarrow> (Inl e, trace @ [Req_getCode address])
              | Inr code \<Rightarrow>
                  with_formatAddress env address (\<lambda>a. Inr (CodeResult a code))
                    (trace @ [Req_getCode address]))))"

text \<open>
  \<^verbatim>\<open>config.testnetPaymaster\<close> of the value \<^verbatim>\<open>getNetworkConfig\<close> returns; a member
  inherited from \<^verbatim>\<open>Object.prototype\<close> has no such property.
\<close>

definition config_testnetPaymaster :: "property_value \<Rightarrow> string option" where
  "config_testnetPaymaster v = (case v of Config c \<Rightarrow> testnetPaymaster c | Inherited k \<Rightarrow> None)"

definition execute_sendEth ::
  "execute_env \<Rightarrow> credentials \<Rightarrow> client \<Rightarrow> parameters \<Rightarrow> request list
     \<Rightarrow> (error + item_result) \<times> request list" where
  "execute_sendEth env cr cl ps trace =
     (if \<not> cl_wallet cl
      then (Inl (Error ''Private key is required to send transactions''), trace)
      else if \<not> x_isAddress env (p_toAddress ps)
      then (Inl (Error ''Invalid recipient address''), trace)
      else
        (case parseEther (p_amount ps) of
           Inl e \<Rightarrow> (Inl e, trace)
         | Inr v \<Rightarrow>
             let paymaster =
                   (if p_usePaymaster ps
                    then (let pm = config_testnetPaymaster
                                     (getNetworkConfig (cr_network cr) (Some (cr_customRpcUrl cr)))
                          in if truthy_string pm then pm else None)
                    else None);
                 sent = trace @ [Req_sendTransaction (p_toAddress ps) v paymaster]
             in case x_sendTransaction env (p_toAddress ps) v paymaster of
                  Inl e \<Rightarrow> (Inl e, sent)
                | Inr txResponse \<Rightarrow>
                    let waited = sent @ [Req_wait (tr_hash txResponse)]
                    in case x_wait env (tr_hash txResponse) of
                         Inl e \<Rightarrow> (Inl e, waited)
                       | Inr r \<Rightarrow>
                           (case formatEther (tr_value txResponse) of
                              Inl e \<Rightarrow> (Inl e, waited)
                            | Inr valueEth \<Rightarrow>
                                (Inr (SendEthResult (tr_hash txResponse) (tr_from txResponse)
                                        (tr_to txResponse) valueEth
                                        (if Option.bind r rc_status = Some 1 then ''success''
                                         else ''failed'')
                                        (map_option rc_blockNumber r)
                                        (map_option bigint_toString (Option.bind r rc_gasUsed))),
                                 waited))))"

text \<open>\<^verbatim>\<open>getAccountType\<close> hands the address to \<^verbatim>\<open>provider.getCode\<close> without a check.\<close>

definition execute_getAccountType ::
  "execute_env \<Rightarrow> string \<Rightarrow> request list \<Rightarrow> (error + item_result) \<times> request list" where
  "execute_getAccountType env address trace =
     (case x_getCode env address of
        Inl e \<Rightarrow> (Inl e, trace @ [Req_getCode address])
      | Inr code \<Rightarrow>
          let isSmartAccount = (code \<noteq> ''0x'' \<and> length code > 2)
          in with_formatAddress env address
               (\<lambda>a. Inr (AccountTypeResult a
                             (if isSmartAccount then ''smart_account'' else ''eoa'')
                             isSmartAccount))
               (trace @ [Req_getCode address]))"

text \<open>
  The body of the \<^verbatim>\<open>try\<close> block for one item: the client is created first, for every
  resource, and the parameters of the operation are read and checked after it.
\<close>

definition execute_item ::
  "execute_env \<Rightarrow> credentials \<Rightarrow> operation \<Rightarrow> parameters
     \<Rightarrow> (error + item_result) \<times> request list" where
  "execute_item env cr op ps =
     (case createZkSyncClient env (cr_network cr) (cr_customRpcUrl cr) (cr_privateKey cr) of
        (Inl e, trace) \<Rightarrow> (Inl e, trace)
      | (Inr cl, trace) \<Rightarrow>
          (case op of
             Account operation \<Rightarrow> execute_account env operation (p_address ps) trace
           | SendEth \<Rightarrow> execute_sendEth env cr cl ps trace
           | GetAccountType \<Rightarrow> execute_getAccountType env (p_address ps) trace))"

text \<open>The address parameter that an operation validates, if it validates one.\<close>

fun validated_address :: "operation \<Rightarrow> parameters \<Rightarrow> string option" where
  "validated_address (Account operation) ps = Some (p_address ps)"
| "validated_address SendEth ps = Some (p_toAddress ps)"
| "validated_address GetAccountType ps = None"

definition online_env :: execute_env where
  "online_env =
     \<lparr>x_isAddress = (\<lambda>a. a = ''0x0000000000000000000000000000000000000000''),
      x_getAddress = (\<lambda>a. if a = ''0x0000000000000000000000000000000000000000'' then Inr a
                           else Inl TypeError),
      x_acceptsKey = (\<lambda>k. True),
      x_getNetwork = Inr 324,
      x_getBalance = (\<lambda>a. Inr 0),
      x_getTransactionCount = (\<lambda>a. Inr 0),
      x_getCode = (\<lambda>a. Inr ''0x''),
      x_sendTransaction = (\<lambda>t v p. Inl (RpcFailure ''rejected'')),
      x_wait = (\<lambda>h. Inr None)\<rparr>"

definition mainnet_credentials :: credentials where
  "mainnet_credentials = \<lparr>cr_network = ''mainnet'', cr_customRpcUrl = [], cr_privateKey = []\<rparr>"

definition invalid_address_parameters :: parameters where
  "invalid_address_parameters =
     \<lparr>p_address = ''0xinvalid'', p_toAddress = ''0xinvalid'', p_amount = ''1'',
      p_usePaymaster = False\<rparr>"

section \<open>Properties of the decimal strings\<close>


lemma lt10_cases:
  "(d::nat) < 10 \<Longrightarrow> d = 0 \<or> d = 1 \<or> d = 2 \<or> d = 3 \<or> d = 4 \<or> d = 5 \<or> d = 6 \<or> d = 7 \<or> d = 8 \<or> d = 9"
  by arith

lemma digit_val_digit_char: "d < 10 \<Longrightarrow> digit_val (digit_char d) = d"
  by (drule lt10_cases) (auto simp: digit_val_def digit_char_def)

lemma is_digit_digit_char: "d < 10 \<Longrightarrow> is_digit (digit_char d)"
  by (drule lt10_cases) (auto simp: is_digit_def digit_char_def)

lemma is_digit_not_dot: "is_digit c \<Longrightarrow> c \<noteq> CHR ''.''"
  by (auto simp: is_digit_def)

lemma is_digit_not_minus: "is_digit c \<Longrightarrow> c \<noteq> CHR ''-''"
  by (auto simp: is_digit_def)

lemma is_digit_zero: "is_digit (CHR ''0'')"
  by (simp add: is_digit_def)

lemma dec_of_nat_small: "n < 10 \<Longrightarrow> dec_of_nat n = [digit_char n]"
  by (subst dec_of_nat.simps) simp

lemma dec_of_nat_big:
  "\<not> n < 10 \<Longrightarrow> dec_of_nat n = dec_of_nat (n div 10) @ [digit_char (n mod 10)]"
  by (subst dec_of_nat.simps) simp

lemma dec_of_nat_digits: "list_all is_digit (dec_of_nat n)"
proof (induction n rule: dec_of_nat.induct)
  case (1 n)
  show ?case
  proof (cases "n < 10")
    case True
    then show ?thesis by (simp add: dec_of_nat_small is_digit_digit_char)
  next
    case False
    with 1 show ?thesis by (simp add: dec_of_nat_big is_digit_digit_char)
  qed
qed

lemma dec_of_nat_nonempty: "dec_of_nat n \<noteq> []"
  by (subst dec_of_nat.simps) simp

lemma nat_of_dec_snoc: "nat_of_dec (xs @ [c]) = 10 * nat_of_dec xs + digit_val c"
  by (simp add: nat_of_dec_def)

lemma nat_of_dec_append:
  "nat_of_dec (xs @ ys) = nat_of_dec xs * 10 ^ length ys + nat_of_dec ys"
proof (induction ys rule: rev_induct)
  case Nil
  show ?case by (simp add: nat_of_dec_def)
next
  case (snoc y ys)
  have "nat_of_dec (xs @ ys @ [y]) = 10 * nat_of_dec (xs @ ys) + digit_val y"
    using nat_of_dec_snoc [of "xs @ ys" y] by simp
  also have "\<dots> = nat_of_dec xs * 10 ^ length (ys @ [y]) + (10 * nat_of_dec ys + digit_val y)"
    by (simp add: snoc.IH algebra_simps)
  finally show ?case by (simp add: nat_of_dec_snoc)
qed

lemma nat_of_dec_dec_of_nat: "nat_of_dec (dec_of_nat n) = n"
proof (induction n rule: dec_of_nat.induct)
  case (1 n)
  show ?case
  proof (cases "n < 10")
    case True
    then show ?thesis
      by (simp add: dec_of_nat_small nat_of_dec_def digit_val_digit_char)
  next
    case False
    with 1 have "nat_of_dec (dec_of_nat (n div 10)) = n div 10" by simp
    with False show ?thesis
      by (simp add: dec_of_nat_big nat_of_dec_snoc digit_val_digit_char)
  qed
qed

lemma length_dec_of_nat: "0 < k \<Longrightarrow> n < 10 ^ k \<Longrightarrow> length (dec_of_nat n) \<le> k"
proof (induction n arbitrary: k rule: dec_of_nat.induct)
  case (1 n)
  show ?case
  proof (cases "n < 10")
    case True
    with 1 show ?thesis by (simp add: dec_of_nat_small)
  next
    case False
    from False "1.prems" have k1: "1 < k"
      by (cases "k = 1") auto
    then obtain j where j: "k = Suc j" "0 < j" by (cases k) auto
    from "1.prems" j have "n div 10 < 10 ^ j"
      by (simp add: less_mult_imp_div_less mult.commute)
    with 1 False j have "length (dec_of_nat (n div 10)) \<le> j" by simp
    with False j show ?thesis by (simp add: dec_of_nat_big)
  qed
qed

lemma nat_of_dec_zeros: "nat_of_dec (replicate k (CHR ''0'')) = 0"
proof (induction k)
  case 0
  show ?case by (simp add: nat_of_dec_def)
next
  case (Suc k)
  have "nat_of_dec ([CHR ''0''] @ replicate k (CHR ''0'')) = 0"
    unfolding nat_of_dec_append using Suc by (simp add: nat_of_dec_def digit_val_def)
  then show ?case by simp
qed

lemma nat_of_dec_pad_zeros: "nat_of_dec (pad_zeros w s) = nat_of_dec s"
  by (simp add: pad_zeros_def nat_of_dec_append nat_of_dec_zeros)

lemma length_pad_zeros: "length s \<le> w \<Longrightarrow> length (pad_zeros w s) = w"
  by (simp add: pad_zeros_def)

lemma pad_zeros_digits: "list_all is_digit s \<Longrightarrow> list_all is_digit (pad_zeros w s)"
  by (auto simp: pad_zeros_def list_all_iff is_digit_zero)

lemma strip_trailing_zeros_decomp:
  "\<exists>k. s = rev (dropWhile (\<lambda>c. c = CHR ''0'') (rev s)) @ replicate k (CHR ''0'')"
proof -
  let ?P = "\<lambda>c. c = CHR ''0''"
  have tw: "takeWhile ?P xs = replicate (length (takeWhile ?P xs)) (CHR ''0'')" for xs
    by (induction xs) auto
  have "rev s = takeWhile ?P (rev s) @ dropWhile ?P (rev s)" by simp
  then have "s = rev (dropWhile ?P (rev s)) @ rev (takeWhile ?P (rev s))"
    by (metis rev_append rev_rev_ident)
  moreover have "rev (takeWhile ?P (rev s)) = replicate (length (takeWhile ?P (rev s))) (CHR ''0'')"
    using tw [of "rev s"] by (metis rev_replicate)
  ultimately show ?thesis by metis
qed

lemma strip_trailing_zeros_digits:
  "list_all is_digit s \<Longrightarrow> list_all is_digit (strip_trailing_zeros s)"
  by (auto simp: strip_trailing_zeros_def Let_def list_all_iff is_digit_zero dest: set_dropWhileD)

lemma length_strip_trailing_zeros:
  "s \<noteq> [] \<Longrightarrow> length (strip_trailing_zeros s) \<le> length s"
proof -
  assume ne: "s \<noteq> []"
  have "length (dropWhile (\<lambda>c. c = CHR ''0'') (rev s)) \<le> length (rev s)"
    by (rule length_dropWhile_le)
  with ne show ?thesis
    by (cases s) (auto simp: strip_trailing_zeros_def Let_def)
qed

lemma nat_of_dec_strip_trailing_zeros:
  assumes "s \<noteq> []"
  shows "nat_of_dec (strip_trailing_zeros s) * 10 ^ (length s - length (strip_trailing_zeros s))
         = nat_of_dec s"
proof -
  define t where "t = rev (dropWhile (\<lambda>c. c = CHR ''0'') (rev s))"
  obtain k where k: "s = t @ replicate k (CHR ''0'')"
    unfolding t_def using strip_trailing_zeros_decomp by blast
  have val: "nat_of_dec s = nat_of_dec t * 10 ^ k"
    by (subst k) (simp add: nat_of_dec_append nat_of_dec_zeros)
  have len: "length s = length t + k"
    by (subst k) simp
  have strip: "strip_trailing_zeros s = (if t = [] then ''0'' else t)"
    unfolding strip_trailing_zeros_def t_def Let_def ..
  show ?thesis
  proof (cases "t = []")
    case True
    with val have "nat_of_dec s = 0" by (simp add: nat_of_dec_def)
    with True strip show ?thesis
      by (simp add: nat_of_dec_def digit_val_def)
  next
    case False
    with strip val len show ?thesis by simp
  qed
qed


lemma parseUnits_whole:
  assumes "list_all is_digit w" and "w \<noteq> []"
  shows "parseUnits w d = Inr (int (nat_of_dec w * 10 ^ d))"
proof -
  from assms(1) have nd: "\<forall>c\<in>set w. c \<noteq> CHR ''.''"
    by (auto simp: list_all_iff dest: is_digit_not_dot)
  then have tw: "takeWhile (\<lambda>c. c \<noteq> CHR ''.'') w = w"
    by (simp add: takeWhile_eq_all_conv)
  from nd have dw: "dropWhile (\<lambda>c. c \<noteq> CHR ''.'') w = []"
    by simp
  show ?thesis
    unfolding parseUnits_def tw dw Let_def using assms
    by (simp add: nat_of_dec_def)
qed

lemma parseUnits_point:
  assumes "list_all is_digit w" and "list_all is_digit f" and "w @ f \<noteq> []"
    and "length f \<le> d"
  shows "parseUnits (w @ ''.'' @ f) d
         = Inr (int (nat_of_dec w * 10 ^ d + nat_of_dec f * 10 ^ (d - length f)))"
proof -
  from assms(1) have nd: "\<And>c. c \<in> set w \<Longrightarrow> c \<noteq> CHR ''.''"
    by (auto simp: list_all_iff dest: is_digit_not_dot)
  have tw: "takeWhile (\<lambda>c. c \<noteq> CHR ''.'') (w @ ''.'' @ f) = w"
    using nd by (simp add: takeWhile_append2)
  have dw: "dropWhile (\<lambda>c. c \<noteq> CHR ''.'') (w @ ''.'' @ f) = ''.'' @ f"
    using nd by (simp add: dropWhile_append2)
  show ?thesis
    unfolding parseUnits_def tw dw Let_def using assms
    by simp
qed

lemma formatUnits_nat_zero: "formatUnits (int n) 0 = dec_of_nat n"
  by (simp add: formatUnits_def)

lemma formatUnits_nat_pos:
  "0 < d \<Longrightarrow> formatUnits (int n) d
     = dec_of_nat (n div 10 ^ d) @ ''.'' @
       strip_trailing_zeros (pad_zeros d (dec_of_nat (n mod 10 ^ d)))"
  by (simp add: formatUnits_def)

lemma formatUnits_neg:
  "v < 0 \<Longrightarrow> formatUnits v d = CHR ''-'' # formatUnits (int (nat (- v))) d"
  by (simp add: formatUnits_def Let_def)

lemma parseUnits_formatUnits: "parseUnits (formatUnits (int n) d) d = Inr (int n)"
proof (cases "d = 0")
  case True
  then show ?thesis
    by (simp add: formatUnits_nat_zero parseUnits_whole dec_of_nat_digits dec_of_nat_nonempty
        nat_of_dec_dec_of_nat)
next
  case False
  then have d: "0 < d" by simp
  define q where "q = n div 10 ^ d"
  define r where "r = n mod 10 ^ d"
  define p where "p = pad_zeros d (dec_of_nat r)"
  define f where "f = strip_trailing_zeros p"
  have "r < 10 ^ d" by (simp add: r_def)
  with d have "length (dec_of_nat r) \<le> d" by (rule length_dec_of_nat)
  then have lp: "length p = d" by (simp add: p_def length_pad_zeros)
  with d have pne: "p \<noteq> []" by auto
  have pv: "nat_of_dec p = r" by (simp add: p_def nat_of_dec_pad_zeros nat_of_dec_dec_of_nat)
  have fd: "list_all is_digit f"
    by (simp add: f_def p_def strip_trailing_zeros_digits pad_zeros_digits dec_of_nat_digits)
  have lf: "length f \<le> d"
    using length_strip_trailing_zeros [OF pne] lp by (simp add: f_def)
  have fv: "nat_of_dec f * 10 ^ (d - length f) = r"
    using nat_of_dec_strip_trailing_zeros [OF pne] lp pv by (simp add: f_def)
  have "formatUnits (int n) d = dec_of_nat q @ ''.'' @ f"
    using d by (simp add: formatUnits_nat_pos q_def r_def p_def f_def)
  moreover have "parseUnits (dec_of_nat q @ ''.'' @ f) d
      = Inr (int (nat_of_dec (dec_of_nat q) * 10 ^ d + nat_of_dec f * 10 ^ (d - length f)))"
    by (rule parseUnits_point) (simp_all add: dec_of_nat_digits dec_of_nat_nonempty fd lf)
  moreover have "q * 10 ^ d + r = n" unfolding q_def r_def by (rule div_mult_mod_eq)
  ultimately show ?thesis by (simp add: nat_of_dec_dec_of_nat fv)
qed

lemma parseUnits_nonneg: "parseUnits s d = Inr w \<Longrightarrow> 0 \<le> w"
  by (auto simp: parseUnits_def Let_def split: if_splits)

lemma dec_of_nat_not_minus: "dec_of_nat n = c # t \<Longrightarrow> c \<noteq> CHR ''-''"
  using dec_of_nat_digits [of n] by (auto dest: is_digit_not_minus)

lemma formatUnits_nat_head: "\<exists>c t. formatUnits (int n) d = c # t \<and> c \<noteq> CHR ''-''"
proof -
  obtain c t where ct: "dec_of_nat (n div 10 ^ d) = c # t"
    using dec_of_nat_nonempty [of "n div 10 ^ d"] by (cases "dec_of_nat (n div 10 ^ d)") auto
  then have "c \<noteq> CHR ''-''" by (rule dec_of_nat_not_minus)
  with ct show ?thesis
    by (cases "d = 0") (auto simp: formatUnits_nat_zero formatUnits_nat_pos)
qed

lemma amount_of_formatUnits: "amount_of (formatUnits v d) d = Inr v"
proof (cases "v < 0")
  case True
  define n where "n = nat (- v)"
  from True have v: "v = - int n" by (simp add: n_def)
  from True have "formatUnits v d = CHR ''-'' # formatUnits (int n) d"
    unfolding n_def by (rule formatUnits_neg)
  then show ?thesis
    by (simp add: amount_of_def parseUnits_formatUnits v)
next
  case False
  then obtain n where n: "v = int n" by (metis nat_0_le not_less)
  obtain c t where ct: "formatUnits (int n) d = c # t" "c \<noteq> CHR ''-''"
    using formatUnits_nat_head by blast
  have "parseUnits (c # t) d = Inr (int n)"
    using parseUnits_formatUnits [of n d] ct by simp
  with ct n show ?thesis by (simp add: amount_of_def)
qed

lemma bigint_toString_formatUnits: "bigint_toString v = formatUnits v 0"
  by (simp add: bigint_toString_def formatUnits_def Let_def)

text \<open>Evaluation of the renderings on numerals.\<close>

lemma replicate_numeral_unfold: "replicate (numeral k) x = x # replicate (pred_numeral k) x"
  by (simp add: numeral_eq_Suc)

lemmas dec_eval = dec_of_nat_small dec_of_nat_big digit_char_def replicate_numeral_unfold
lemmas unit_eval = formatUnits_def parseUnits_def convertUnits_def Let_def pad_zeros_def
  strip_trailing_zeros_def nat_of_dec_def digit_val_def is_digit_def dec_eval

section \<open>Unit conversion\<close>

text \<open>
  The repository's tests: one ether is \<open>1000000000000000000\<close> wei, that many wei are
  \<open>1.0\<close> ether, one gwei is \<open>1000000000\<close> wei.
\<close>

lemma convertUnits_test_ether_wei: "convertUnits ''1'' Ether Wei = Inr ''1000000000000000000''"
  by (simp add: unit_eval)

lemma convertUnits_test_wei_ether: "convertUnits ''1000000000000000000'' Wei Ether = Inr ''1.0''"
  by (simp add: unit_eval)

lemma convertUnits_test_gwei_wei: "convertUnits ''1'' Gwei Wei = Inr ''1000000000''"
  by (simp add: unit_eval)

text \<open>
  C3, as stated: converting a valid amount to another unit and back gives the same
  string. It fails at the amount \<open>1\<close> in ether: the string is valid, its wei
  rendering is \<open>1000000000000000000\<close>, and converting that back gives \<open>1.0\<close>.
\<close>

theorem convertUnits_round_trip_counterexample:
  "parseUnits ''1'' (UNIT_DECIMALS Ether) = Inr 1000000000000000000
   \<and> convertUnits ''1'' Ether Wei = Inr ''1000000000000000000''
   \<and> convertUnits ''1000000000000000000'' Wei Ether = Inr ''1.0''
   \<and> ''1.0'' \<noteq> ''1''"
  by (simp add: unit_eval)

text \<open>
  C3, amended: for every amount string \<open>a\<close> that is valid in unit \<open>u\<close>, denoting
  \<open>w\<close> base units, and every unit \<open>v\<close>, both conversions succeed and
  \<open>convertUnits (convertUnits a u v) v u\<close> is the canonical rendering of \<open>w\<close> in
  \<open>u\<close>, which denotes the same amount \<open>w\<close>. The round trip therefore preserves the
  amount exactly, and returns \<open>a\<close> itself exactly when \<open>a\<close> is already that
  canonical rendering.
\<close>

theorem convertUnits_round_trip_canonical:
  assumes "parseUnits a (UNIT_DECIMALS u) = Inr w"
  shows "\<exists>b. convertUnits a u v = Inr b
           \<and> convertUnits b v u = Inr (formatUnits w (UNIT_DECIMALS u))
           \<and> parseUnits (formatUnits w (UNIT_DECIMALS u)) (UNIT_DECIMALS u) = Inr w"
proof -
  from assms have "0 \<le> w" by (rule parseUnits_nonneg)
  then obtain n where n: "w = int n" by (metis nat_0_le)
  have "convertUnits a u v = Inr (formatUnits w (UNIT_DECIMALS v))"
    using assms by (simp add: convertUnits_def)
  moreover have "convertUnits (formatUnits w (UNIT_DECIMALS v)) v u
      = Inr (formatUnits w (UNIT_DECIMALS u))"
    by (simp add: convertUnits_def n parseUnits_formatUnits)
  moreover have "parseUnits (formatUnits w (UNIT_DECIMALS u)) (UNIT_DECIMALS u) = Inr w"
    by (simp add: n parseUnits_formatUnits)
  ultimately show ?thesis by blast
qed

theorem convertUnits_round_trip_canonical_witness:
  "parseUnits ''1'' (UNIT_DECIMALS Ether) = Inr 1000000000000000000
   \<and> (\<exists>b. convertUnits ''1'' Ether Wei = Inr b
          \<and> convertUnits b Wei Ether = Inr ''1.0''
          \<and> parseUnits ''1.0'' (UNIT_DECIMALS Ether) = Inr 1000000000000000000)"
proof -
  have h: "parseUnits ''1'' (UNIT_DECIMALS Ether) = Inr 1000000000000000000"
    by (simp add: unit_eval)
  have f: "formatUnits 1000000000000000000 (UNIT_DECIMALS Ether) = ''1.0''"
    by (simp add: unit_eval)
  show ?thesis
    using h convertUnits_round_trip_canonical [OF h, of Wei] unfolding f by simp
qed

section \<open>Transaction cost\<close>

lemma ethers_formatUnits_fits:
  "fits_fixed_format v \<Longrightarrow> ethers_formatUnits v d = Inr (formatUnits v d)"
  by (simp add: ethers_formatUnits_def)

lemma ethers_formatUnits_overflow:
  "\<not> fits_fixed_format v \<Longrightarrow> ethers_formatUnits v d = Inl RangeError"
  by (simp add: ethers_formatUnits_def)

lemma fits_fixed_format_abs: "\<bar>v\<bar> < 2 ^ 511 \<Longrightarrow> fits_fixed_format v"
  by (simp add: fits_fixed_format_def abs_less_iff)

lemma calculateTxCost_cases:
  "calculateTxCost gasUsed gasPrice =
     (if fits_fixed_format (gasUsed * gasPrice)
      then Inr \<lparr>wei = bigint_toString (gasUsed * gasPrice),
                gwei = formatUnits (gasUsed * gasPrice) 9,
                eth = formatUnits (gasUsed * gasPrice) 18\<rparr>
      else Inl RangeError)"
  by (simp add: calculateTxCost_def formatEther_def ethers_formatUnits_def Let_def)

text \<open>A product that does not fit the format of the renderer: the call throws.\<close>

lemma calculateTxCost_overflow: "calculateTxCost (2 ^ 511) 1 = Inl RangeError"
  by (simp add: calculateTxCost_cases fits_fixed_format_def)

text \<open>
  C4, as stated: a negative operand makes \<open>calculateTxCost\<close> fail with
  \<open>InvalidQuantity\<close>, and no negative cost is returned. At \<open>gasUsed = -1\<close>,
  \<open>gasPrice = 1\<close> the function returns, and the cost it returns is negative.
\<close>

theorem calculateTxCost_negative_counterexample:
  "calculateTxCost (- 1) 1
     = Inr \<lparr>wei = ''-1'', gwei = ''-0.000000001'', eth = ''-0.000000000000000001''\<rparr>"
  by (simp add: calculateTxCost_cases fits_fixed_format_def bigint_toString_def unit_eval)

text \<open>
  C4, amended: \<open>calculateTxCost\<close> returns the product \<open>gasUsed * gasPrice\<close> rendered in
  wei, in gwei (scale 9) and in ether (scale 18): whenever it returns, each of the three
  renderings denotes exactly the product, and it does return whenever the product is below
  \<open>2 ^ 511\<close> in absolute value, whatever the signs of the operands. A negative operand
  is not rejected, and a negative product is returned as a negative cost.
\<close>

theorem calculateTxCost_renders_product:
  "(\<bar>gasUsed * gasPrice\<bar> < 2 ^ 511 \<longrightarrow> (\<exists>r. calculateTxCost gasUsed gasPrice = Inr r))
   \<and> (\<forall>r. calculateTxCost gasUsed gasPrice = Inr r \<longrightarrow>
          amount_of (wei r) 0 = Inr (gasUsed * gasPrice)
          \<and> amount_of (gwei r) 9 = Inr (gasUsed * gasPrice)
          \<and> amount_of (eth r) 18 = Inr (gasUsed * gasPrice))"
proof (intro conjI impI allI)
  assume "\<bar>gasUsed * gasPrice\<bar> < 2 ^ 511"
  then have "fits_fixed_format (gasUsed * gasPrice)" by (rule fits_fixed_format_abs)
  then show "\<exists>r. calculateTxCost gasUsed gasPrice = Inr r"
    by (simp add: calculateTxCost_cases)
next
  fix r
  assume "calculateTxCost gasUsed gasPrice = Inr r"
  then have r: "r = \<lparr>wei = bigint_toString (gasUsed * gasPrice),
                      gwei = formatUnits (gasUsed * gasPrice) 9,
                      eth = formatUnits (gasUsed * gasPrice) 18\<rparr>"
    by (simp add: calculateTxCost_cases split: if_splits)
  show "amount_of (wei r) 0 = Inr (gasUsed * gasPrice)"
    by (simp add: r bigint_toString_formatUnits amount_of_formatUnits)
  show "amount_of (gwei r) 9 = Inr (gasUsed * gasPrice)"
    by (simp add: r amount_of_formatUnits)
  show "amount_of (eth r) 18 = Inr (gasUsed * gasPrice)"
    by (simp add: r amount_of_formatUnits)
qed

theorem calculateTxCost_renders_product_witness:
  "\<exists>r. calculateTxCost 21000 1000000000 = Inr r
       \<and> amount_of (wei r) 0 = Inr 21000000000000
       \<and> amount_of (gwei r) 9 = Inr 21000000000000
       \<and> amount_of (eth r) 18 = Inr 21000000000000"
proof -
  have small: "\<bar>21000 * 1000000000 :: int\<bar> < 2 ^ 511" by simp
  from calculateTxCost_renders_product [of 21000 1000000000] small
  obtain r where "calculateTxCost 21000 1000000000 = Inr r" by blast
  with calculateTxCost_renders_product [of 21000 1000000000] show ?thesis by simp
qed

section \<open>Network configuration\<close>

lemma getNetworkConfig_mainnet: "getNetworkConfig ''mainnet'' u = Config NETWORKS_mainnet"
  by (simp add: getNetworkConfig_def NETWORKS_def)

lemma getNetworkConfig_sepolia: "getNetworkConfig ''sepolia'' u = Config NETWORKS_sepolia"
  by (simp add: getNetworkConfig_def NETWORKS_def)

lemma getNetworkConfig_custom:
  "u \<noteq> [] \<Longrightarrow> getNetworkConfig ''custom'' (Some u)
     = Config \<lparr>name = ''Custom Network'', chainId = 0, rpcUrl = u, explorerUrl = [],
               explorerApiUrl = [], l1ChainId = 0, l1RpcUrl = [], bridgeAddress = [],
               testnetPaymaster = None\<rparr>"
  by (simp add: getNetworkConfig_def truthy_string_def)

text \<open>
  Outside the two own keys, the custom case and the keys inherited from
  \<^verbatim>\<open>Object.prototype\<close>, the lookup is \<^verbatim>\<open>undefined\<close> and the mainnet configuration is
  returned; \<open>custom\<close> with an empty or missing URL is such a case.
\<close>

lemma getNetworkConfig_fallback:
  assumes "network \<noteq> ''mainnet''" and "network \<noteq> ''sepolia''"
    and "\<not> (network = ''custom'' \<and> truthy_string customRpcUrl)"
    and "network \<notin> set Object_prototype_keys"
  shows "getNetworkConfig network customRpcUrl = Config NETWORKS_mainnet"
  using assms by (auto simp: getNetworkConfig_def NETWORKS_def)

lemma getNetworkConfig_custom_without_url:
  "getNetworkConfig ''custom'' None = Config NETWORKS_mainnet"
  "getNetworkConfig ''custom'' (Some []) = Config NETWORKS_mainnet"
  by (simp_all add: getNetworkConfig_def NETWORKS_def truthy_string_def Object_prototype_keys_def)

lemma NETWORKS_mainnet_values:
  "chainId NETWORKS_mainnet = 324" "rpcUrl NETWORKS_mainnet = ''https://mainnet.era.zksync.io''"
  by (simp_all add: NETWORKS_mainnet_def)

text \<open>
  C9: every network identifier other than \<open>mainnet\<close>, \<open>sepolia\<close> and \<open>custom\<close> with a
  non-empty URL yields the mainnet configuration. The identifier \<open>toString\<close> is none of
  the three, and the value returned for it is the function inherited from
  \<^verbatim>\<open>Object.prototype\<close>, which is truthy and so is not replaced by the fallback.
\<close>

theorem getNetworkConfig_inherited_key:
  "getNetworkConfig ''toString'' None = Inherited ''toString''
   \<and> getNetworkConfig ''toString'' None \<noteq> Config NETWORKS_mainnet"
  by (simp add: getNetworkConfig_def NETWORKS_def Object_prototype_keys_def)

section \<open>The poller: watermarks\<close>

lemma or_default_simps:
  "or_default None d = d"
  "or_default (Some 0) d = d"
  "w \<noteq> 0 \<Longrightarrow> or_default (Some w) d = w"
  by (simp_all add: or_default_def)

lemma poll_guarded:
  assumes "triggerOn env = k" and "k \<in> guarded_kinds" and "address_checked env"
    and "tip k env = Inr c"
  shows "poll env st =
           (let w = or_default (watermark k st) (c - 1) in
            if c > w then
              (case scan k env (w + 1) c of
                 Inl e \<Rightarrow> (Inl e, st)
               | Inr items \<Rightarrow> (Inr items, set_watermark k (Some c) st))
            else (Inr [], st))"
proof -
  from assms(2) consider "k = NewBlock" | "k = NewL1Batch" | "k = EthReceived" | "k = EthSent"
    | "k = TokenTransfer" | "k = NftTransfer" | "k = ContractEvent"
    by (auto simp: guarded_kinds_def)
  then show ?thesis
  proof cases
    case 1
    with assms show ?thesis
      by (simp add: poll_def poll_newBlock_def Let_def split: sum.splits)
  next
    case 2
    with assms show ?thesis
      by (simp add: poll_def poll_newL1Batch_def Let_def split: sum.splits)
  next
    case 3
    with assms show ?thesis
      by (simp add: poll_def poll_ethTransfer_def address_checked_def Let_def split: sum.splits)
  next
    case 4
    with assms show ?thesis
      by (simp add: poll_def poll_ethTransfer_def address_checked_def Let_def split: sum.splits)
  next
    case 5
    with assms show ?thesis
      by (simp add: poll_def poll_tokenTransfer_def scan_logs_def Let_def split: sum.splits)
  next
    case 6
    with assms show ?thesis
      by (simp add: poll_def poll_nftTransfer_def scan_logs_def Let_def split: sum.splits)
  next
    case 7
    with assms show ?thesis
      by (simp add: poll_def poll_contractEvent_def scan_contract_def Let_def
          split: sum.splits list.splits)
  qed
qed

lemma poll_address_rejected:
  assumes "triggerOn env \<in> {EthReceived, EthSent, BalanceChange}"
    and "\<not> isAddress env (watchAddress env)"
  shows "poll env st = (Inl (Error ''Invalid watch address''), st)"
  using assms by (auto simp: poll_def poll_ethTransfer_def poll_balanceChange_def)

lemma poll_stale_tip_guarded:
  assumes "triggerOn env = k" and "k \<in> guarded_kinds" and "address_checked env"
    and "tip k env = Inr c" and "watermark k st = Some w" and "w \<noteq> 0" and "c \<le> w"
  shows "poll env st = (Inr [], st)"
  using poll_guarded [OF assms(1-4), of st] assms(5-7)
  by (simp add: or_default_simps Let_def)

lemma poll_stale_tip_blockFinalized:
  assumes "triggerOn env = BlockFinalized" and "getL1BatchNumber env = Inr c"
    and "lastFinalizedBatch st = Some w" and "w \<noteq> 0" and "c \<le> w"
  shows "poll env st = (Inr [], st\<lparr>lastFinalizedBatch := Some c\<rparr>)"
  using assms by (simp add: poll_def poll_blockFinalized_def or_default_simps Let_def)

lemma scan_finalized_fst_cong:
  "batch_executed s' = batch_executed s \<Longrightarrow>
   fst (scan_finalized env ns acc s') = fst (scan_finalized env ns acc s)"
proof (induction ns arbitrary: acc s s')
  case Nil
  show ?case by simp
next
  case (Cons n ns)
  show ?case
  proof (cases "getL1BatchDetails env n")
    case (Inl e)
    then show ?thesis by simp
  next
    case (Inr d)
    show ?thesis
    proof (cases "bd_status d = ''verified'' \<and> truthy_string (bd_executeTxHash d)
                  \<and> n \<notin> batch_executed s")
      case True
      with Inr Cons.prems show ?thesis
        by (simp add: Let_def Cons.IH [of "s'\<lparr>batch_executed := insert n (batch_executed s)\<rparr>"
              "s\<lparr>batch_executed := insert n (batch_executed s)\<rparr>"])
    next
      case False
      with Inr Cons.prems show ?thesis
        using Cons.IH [of s' s] by (auto simp: Let_def)
    qed
  qed
qed

lemma upto_single: "[c..c] = [c::int]"
  by (simp add: upto_rec1)

text \<open>Evaluation of the poller on concrete surroundings.\<close>

lemmas poll_eval = poll_def poll_newBlock_def poll_newL1Batch_def poll_blockFinalized_def
  poll_transactionConfirmed_def poll_balanceChange_def
  or_default_def offline_env_def fresh_static_data_def Let_def block_item_def plain_block_def
  verified_batch_def sealed_batch_def truthy_string_def confirming_env_def finalizing_env_def
  failing_env_def block_env_def backlog_env_def balance_env_def

text \<open>
  The scenario of the spec: a watermark of block 100, a tip of block 105 and one
  \<open>Transfer\<close> log at block 103 with a value of 500 give exactly one item with those
  fields, and the watermark 105.
\<close>

lemma tokenTransfer_scenario:
  "poll token_env (fresh_static_data\<lparr>lastTokenBlock := Some 100\<rparr>)
     = (Inr [TokenTransferEvent ''0xC0'' ''0xaaaaaaaaaaaaaaaaaaaaaaaaaaaaaaaaaaaaaaaa''
               ''0xbbbbbbbbbbbbbbbbbbbbbbbbbbbbbbbbbbbbbbbb'' ''500'' 103 ''0x77'' 0
               ''zkSync Era Mainnet''],
        fresh_static_data\<lparr>lastTokenBlock := Some 105\<rparr>)"
  by (simp add: poll_def poll_tokenTransfer_def token_env_def transfer_log_def offline_env_def
      fresh_static_data_def or_default_def Let_def filtered_out_def BigInt_def trim_def
      is_whitespace_def digits_of_base_def digit_of_base_def bigint_toString_def dec_eval)

text \<open>
  C1: for every watermark-based kind, a poll that observes a tip at or below the stored
  watermark emits nothing and leaves the watermark as it is. The seven guarded kinds do
  so for a stored watermark other than \<open>0\<close> (\<open>poll_stale_tip_guarded\<close>). The
  \<open>blockFinalized\<close> case has no guard: with the watermark at batch 100 and a provider
  that reports batch 90 as current, it emits nothing and overwrites the watermark with
  90 (\<open>poll_stale_tip_blockFinalized\<close> is the general form).
\<close>

theorem blockFinalized_stale_tip_regresses:
  "poll (offline_env\<lparr>triggerOn := BlockFinalized, getL1BatchNumber := Inr 90\<rparr>)
        (fresh_static_data\<lparr>lastFinalizedBatch := Some 100\<rparr>)
   = (Inr [], fresh_static_data\<lparr>lastFinalizedBatch := Some 90\<rparr>)"
  by (simp add: poll_eval)

text \<open>
  C8: on the first invocation of a block or batch kind, with no watermark stored, the
  seven guarded kinds take the tip minus one as watermark: the invocation scans exactly
  the unit \<open>c\<close> of the tip (\<open>[c..c]\<close> is \<open>[c]\<close>), nothing older, emits what an invocation
  with the watermark \<open>c - 1\<close> stored would emit, and stores \<open>c\<close>. \<open>blockFinalized\<close> takes
  the tip minus ten: it scans the ten batches \<open>c - 9, \<dots>, c\<close> and emits what an invocation
  with the watermark \<open>c - 10\<close> stored would emit.
\<close>

theorem first_poll_seeds_one_behind:
  assumes "triggerOn env = k" and "watermark k st = None" and "tip k env = Inr c"
    and "address_checked env"
  shows "(k \<in> guarded_kinds \<longrightarrow>
            poll env st =
              (case scan k env c c of
                 Inl e \<Rightarrow> (Inl e, st)
               | Inr items \<Rightarrow> (Inr items, set_watermark k (Some c) st))
            \<and> fst (poll env st) = fst (poll env (set_watermark k (Some (c - 1)) st)))
       \<and> (k = BlockFinalized \<longrightarrow>
            poll env st =
              (case scan_finalized env [c - 9..c] [] st of
                 (Inl e, st') \<Rightarrow> (Inl e, st')
               | (Inr items, st') \<Rightarrow> (Inr items, st'\<lparr>lastFinalizedBatch := Some c\<rparr>))
            \<and> fst (poll env st) = fst (poll env (set_watermark k (Some (c - 10)) st)))"
proof (intro conjI impI)
  assume g: "k \<in> guarded_kinds"
  show first: "poll env st =
      (case scan k env c c of
         Inl e \<Rightarrow> (Inl e, st)
       | Inr items \<Rightarrow> (Inr items, set_watermark k (Some c) st))"
    using poll_guarded [OF assms(1) g assms(4) assms(3), of st] assms(2)
    by (simp add: or_default_simps Let_def)
  have wm: "watermark k (set_watermark k (Some (c - 1)) st) = Some (c - 1)"
    using g by (auto simp: guarded_kinds_def)
  have od: "or_default (Some (c - 1)) (c - 1) = c - 1"
    by (simp add: or_default_def)
  have "poll env (set_watermark k (Some (c - 1)) st) =
      (case scan k env c c of
         Inl e \<Rightarrow> (Inl e, set_watermark k (Some (c - 1)) st)
       | Inr items \<Rightarrow>
           (Inr items, set_watermark k (Some c) (set_watermark k (Some (c - 1)) st)))"
    using poll_guarded [OF assms(1) g assms(4) assms(3), of "set_watermark k (Some (c - 1)) st"]
    by (simp add: wm od Let_def)
  with first show "fst (poll env st) = fst (poll env (set_watermark k (Some (c - 1)) st))"
    by (simp split: sum.splits)
next
  assume b: "k = BlockFinalized"
  have r: "c - 10 + 1 = c - 9" by simp
  show first: "poll env st =
      (case scan_finalized env [c - 9..c] [] st of
         (Inl e, st') \<Rightarrow> (Inl e, st')
       | (Inr items, st') \<Rightarrow> (Inr items, st'\<lparr>lastFinalizedBatch := Some c\<rparr>))"
    using assms b by (simp add: poll_def poll_blockFinalized_def or_default_simps Let_def r)
  have od: "or_default (Some (c - 10)) (c - 10) = c - 10"
    by (simp add: or_default_def)
  have sf: "fst (scan_finalized env ns acc (s\<lparr>lastFinalizedBatch := w\<rparr>))
            = fst (scan_finalized env ns acc s)" for ns acc s w
    by (rule scan_finalized_fst_cong) simp
  have "fst (poll env (st\<lparr>lastFinalizedBatch := Some (c - 10)\<rparr>))
        = fst (scan_finalized env [c - 9..c] [] (st\<lparr>lastFinalizedBatch := Some (c - 10)\<rparr>))"
    using assms b
    by (simp add: poll_def poll_blockFinalized_def od Let_def r split: prod.splits sum.splits)
  also have "\<dots> = fst (scan_finalized env [c - 9..c] [] st)" by (rule sf)
  also have "\<dots> = fst (poll env st)"
    unfolding first by (simp split: prod.splits sum.splits)
  finally show "fst (poll env st) = fst (poll env (set_watermark k (Some (c - 10)) st))"
    using b by simp
qed

theorem first_poll_seeds_one_behind_witness:
  "poll block_env fresh_static_data
     = (Inr [NewBlockEvent 5 None 0 None None 0 ''zkSync Era Mainnet''],
        fresh_static_data\<lparr>lastBlock := Some 5\<rparr>)
   \<and> poll backlog_env fresh_static_data
     = (Inr [BlockFinalizedEvent 3 ''verified'' None None (Some ''0xe1'') ''zkSync Era Mainnet'',
             BlockFinalizedEvent 12 ''verified'' None None (Some ''0xe1'') ''zkSync Era Mainnet''],
        fresh_static_data\<lparr>lastFinalizedBatch := Some 12, batch_executed := {3, 12}\<rparr>)"
proof -
  have a: "triggerOn block_env = NewBlock" "watermark NewBlock fresh_static_data = None"
    "tip NewBlock block_env = Inr 5" "address_checked block_env"
    by (simp_all add: block_env_def offline_env_def fresh_static_data_def address_checked_def)
  have b: "triggerOn backlog_env = BlockFinalized"
    "watermark BlockFinalized fresh_static_data = None"
    "tip BlockFinalized backlog_env = Inr 12" "address_checked backlog_env"
    by (simp_all add: backlog_env_def offline_env_def fresh_static_data_def address_checked_def)
  have g: "NewBlock \<in> guarded_kinds" by (simp add: guarded_kinds_def)
  from first_poll_seeds_one_behind [OF a] g
  have "poll block_env fresh_static_data =
      (case scan NewBlock block_env 5 5 of
         Inl e \<Rightarrow> (Inl e, fresh_static_data)
       | Inr items \<Rightarrow> (Inr items, set_watermark NewBlock (Some 5) fresh_static_data))"
    by blast
  then have one: "poll block_env fresh_static_data
     = (Inr [NewBlockEvent 5 None 0 None None 0 ''zkSync Era Mainnet''],
        fresh_static_data\<lparr>lastBlock := Some 5\<rparr>)"
    by (simp add: block_env_def offline_env_def block_item_def plain_block_def)
  from first_poll_seeds_one_behind [OF b]
  have "poll backlog_env fresh_static_data =
      (case scan_finalized backlog_env [12 - 9..12] [] fresh_static_data of
         (Inl e, st') \<Rightarrow> (Inl e, st')
       | (Inr items, st') \<Rightarrow> (Inr items, st'\<lparr>lastFinalizedBatch := Some 12\<rparr>))"
    by blast
  then have two: "poll backlog_env fresh_static_data
     = (Inr [BlockFinalizedEvent 3 ''verified'' None None (Some ''0xe1'') ''zkSync Era Mainnet'',
             BlockFinalizedEvent 12 ''verified'' None None (Some ''0xe1'') ''zkSync Era Mainnet''],
        fresh_static_data\<lparr>lastFinalizedBatch := Some 12, batch_executed := {3, 12}\<rparr>)"
    by (simp add: backlog_env_def offline_env_def fresh_static_data_def verified_batch_def
        sealed_batch_def truthy_string_def Let_def insert_commute)
  from one two show ?thesis by (rule conjI)
qed

text \<open>
  C10: a stored \<open>lastBlock\<close> or \<open>lastL1Batch\<close> of \<open>0\<close> is read as absent. The invocation
  takes the tip minus one as watermark and scans the unit \<open>c\<close> of the tip alone, not the
  units from \<open>1\<close>; it emits what an invocation with no watermark stored emits and, when
  it completes, leaves the same static data.
\<close>

theorem zero_watermark_is_absent:
  assumes "triggerOn env = k" and "k = NewBlock \<or> k = NewL1Batch"
    and "watermark k st = Some 0" and "tip k env = Inr c"
  shows "poll env st =
           (case scan k env c c of
              Inl e \<Rightarrow> (Inl e, st)
            | Inr items \<Rightarrow> (Inr items, set_watermark k (Some c) st))
         \<and> fst (poll env st) = fst (poll env (set_watermark k None st))
         \<and> (\<forall>items st'. poll env st = (Inr items, st') \<longrightarrow>
               snd (poll env (set_watermark k None st)) = st')"
proof -
  from assms(2) have g: "k \<in> guarded_kinds" by (auto simp: guarded_kinds_def)
  from assms(1,2) have a: "address_checked env" by (auto simp: address_checked_def)
  have zero: "poll env st =
      (case scan k env c c of
         Inl e \<Rightarrow> (Inl e, st)
       | Inr items \<Rightarrow> (Inr items, set_watermark k (Some c) st))"
    using poll_guarded [OF assms(1) g a assms(4), of st] assms(3)
    by (simp add: or_default_simps Let_def)
  have wm: "watermark k (set_watermark k None st) = None"
    using assms(2) by auto
  have ow: "set_watermark k (Some c) (set_watermark k None st) = set_watermark k (Some c) st"
    using assms(2) by auto
  have absent: "poll env (set_watermark k None st) =
      (case scan k env c c of
         Inl e \<Rightarrow> (Inl e, set_watermark k None st)
       | Inr items \<Rightarrow> (Inr items, set_watermark k (Some c) st))"
    using poll_guarded [OF assms(1) g a assms(4), of "set_watermark k None st"]
    by (cases "scan k env c c") (simp_all add: wm ow or_default_simps Let_def)
  show ?thesis
    unfolding zero absent by (cases "scan k env c c") simp_all
qed

theorem zero_watermark_is_absent_witness:
  "poll block_env (fresh_static_data\<lparr>lastBlock := Some 0\<rparr>)
     = (Inr [NewBlockEvent 5 None 0 None None 0 ''zkSync Era Mainnet''],
        fresh_static_data\<lparr>lastBlock := Some 5\<rparr>)"
proof -
  let ?st = "fresh_static_data\<lparr>lastBlock := Some 0\<rparr>"
  have a: "triggerOn block_env = NewBlock" "NewBlock = NewBlock \<or> NewBlock = NewL1Batch"
    "watermark NewBlock ?st = Some 0" "tip NewBlock block_env = Inr 5"
    by (simp_all add: block_env_def offline_env_def fresh_static_data_def)
  from zero_watermark_is_absent [OF a]
  have "poll block_env ?st =
      (case scan NewBlock block_env 5 5 of
         Inl e \<Rightarrow> (Inl e, ?st)
       | Inr items \<Rightarrow> (Inr items, set_watermark NewBlock (Some 5) ?st))"
    by blast
  then show ?thesis
    by (simp add: block_env_def offline_env_def block_item_def plain_block_def
        fresh_static_data_def)
qed

section \<open>The poller: one-shot latches\<close>

lemma scan_blocks_filter:
  assumes "\<And>a b c d e f g. \<not> P (NewBlockEvent a b c d e f g)"
  shows "scan_blocks env ns acc = Inr items \<Longrightarrow> filter P items = filter P acc"
proof (induction ns arbitrary: acc)
  case Nil
  then show ?case by simp
next
  case (Cons n ns)
  then show ?case
    by (auto simp: block_item_def assms split: sum.splits option.splits if_splits)
qed

lemma scan_batches_filter:
  assumes "\<And>d n. \<not> P (NewL1BatchEvent d n)"
  shows "scan_batches env ns acc = Inr items \<Longrightarrow> filter P items = filter P acc"
proof (induction ns arbitrary: acc)
  case Nil
  then show ?case by simp
next
  case (Cons n ns)
  then show ?case
    by (auto simp: assms split: sum.splits)
qed

lemma eth_items_filter:
  assumes "\<And>a b c d e f g h. \<not> P (EthTransferEvent a b c d e f g h)"
  shows "eth_items env b txs acc = Inr items \<Longrightarrow> filter P items = filter P acc"
proof (induction txs arbitrary: acc)
  case Nil
  then show ?case by simp
next
  case (Cons t txs)
  then show ?case
    by (auto simp: Let_def assms split: sum.splits if_splits)
qed

lemma scan_eth_blocks_filter:
  assumes "\<And>a b c d e f g h. \<not> P (EthTransferEvent a b c d e f g h)"
  shows "scan_eth_blocks env ns acc = Inr items \<Longrightarrow> filter P items = filter P acc"
proof (induction ns arbitrary: acc)
  case Nil
  then show ?case by simp
next
  case (Cons n ns)
  then show ?case
    by (auto dest!: eth_items_filter [of P, OF assms] split: sum.splits option.splits)
qed

lemma token_items_filter:
  assumes "\<And>a b c d e f g h. \<not> P (TokenTransferEvent a b c d e f g h)"
  shows "token_items env logs acc = Inr items \<Longrightarrow> filter P items = filter P acc"
proof (induction logs arbitrary: acc)
  case Nil
  then show ?case by simp
next
  case (Cons lg logs)
  then show ?case
    by (auto simp: Let_def assms split: sum.splits if_splits)
qed

lemma nft_items_filter:
  assumes "\<And>a b c d e f g h. \<not> P (NftTransferEvent a b c d e f g h)"
  shows "nft_items env logs acc = Inr items \<Longrightarrow> filter P items = filter P acc"
proof (induction logs arbitrary: acc)
  case Nil
  then show ?case by simp
next
  case (Cons lg logs)
  then show ?case
    by (auto simp: Let_def assms split: sum.splits if_splits)
qed

lemma contract_items_filter:
  assumes "\<And>a b c d e f g. \<not> P (ContractEventEvent a b c d e f g)"
  shows "filter P (contract_items env iface logs acc) = filter P acc"
proof (induction logs arbitrary: acc)
  case Nil
  then show ?case by simp
next
  case (Cons lg logs)
  then show ?case
    by (auto simp: assms split: sum.splits)
qed

text \<open>The kinds without a latch emit no latched item and leave both latch families alone.\<close>

lemma poll_unlatched:
  assumes "triggerOn env \<noteq> TransactionConfirmed" and "triggerOn env \<noteq> BlockFinalized"
    and "\<And>a b c d e f g. \<not> P (NewBlockEvent a b c d e f g)"
    and "\<And>d n. \<not> P (NewL1BatchEvent d n)"
    and "\<And>a b c d e f g h. \<not> P (EthTransferEvent a b c d e f g h)"
    and "\<And>a b c d e f g h. \<not> P (TokenTransferEvent a b c d e f g h)"
    and "\<And>a b c d e f g h. \<not> P (NftTransferEvent a b c d e f g h)"
    and "\<And>a b c d e f g. \<not> P (ContractEventEvent a b c d e f g)"
    and "\<And>a b c d e f g h i. \<not> P (BalanceChangeEvent a b c d e f g h i)"
    and "poll env st = (r, st')"
  shows "tx_triggered st' = tx_triggered st \<and> batch_executed st' = batch_executed st
         \<and> (\<forall>items. r = Inr items \<longrightarrow> filter P items = [])"
proof (cases "triggerOn env")
  case NewBlock
  with assms(10) show ?thesis
    by (auto simp: poll_def poll_newBlock_def Let_def
        dest!: scan_blocks_filter [of P, OF assms(3)] split: sum.splits if_splits)
next
  case NewL1Batch
  with assms(10) show ?thesis
    by (auto simp: poll_def poll_newL1Batch_def Let_def
        dest!: scan_batches_filter [of P, OF assms(4)] split: sum.splits if_splits)
next
  case TransactionConfirmed
  with assms(1) show ?thesis by simp
next
  case EthReceived
  with assms(10) show ?thesis
    by (auto simp: poll_def poll_ethTransfer_def Let_def
        dest!: scan_eth_blocks_filter [of P, OF assms(5)] split: sum.splits if_splits)
next
  case EthSent
  with assms(10) show ?thesis
    by (auto simp: poll_def poll_ethTransfer_def Let_def
        dest!: scan_eth_blocks_filter [of P, OF assms(5)] split: sum.splits if_splits)
next
  case TokenTransfer
  with assms(10) show ?thesis
    by (auto simp: poll_def poll_tokenTransfer_def Let_def
        dest!: token_items_filter [of P, OF assms(6)] split: sum.splits if_splits)
next
  case NftTransfer
  with assms(10) show ?thesis
    by (auto simp: poll_def poll_nftTransfer_def Let_def
        dest!: nft_items_filter [of P, OF assms(7)] split: sum.splits if_splits)
next
  case ContractEvent
  with assms(10) show ?thesis
    by (auto simp: poll_def poll_contractEvent_def Let_def
        contract_items_filter [of P, OF assms(8)] split: sum.splits if_splits list.splits)
next
  case BlockFinalized
  with assms(2) show ?thesis by simp
next
  case BalanceChange
  with assms(10) show ?thesis
    by (auto simp: poll_def poll_balanceChange_def Let_def assms(9)
        split: sum.splits if_splits option.splits)
qed


lemma poll_transactionConfirmed_latch:
  assumes "answers_what_is_asked env" and "poll_transactionConfirmed env st = (r, st')"
  shows "tx_triggered st \<subseteq> tx_triggered st' \<and> batch_executed st' = batch_executed st
         \<and> (\<forall>items. r = Inr items \<longrightarrow>
               filter (\<lambda>ev. finalized_batch ev = Some n) items = []
               \<and> length (filter (\<lambda>ev. confirmed_hash ev = Some h) items) \<le> 1
               \<and> (h \<in> tx_triggered st \<longrightarrow> filter (\<lambda>ev. confirmed_hash ev = Some h) items = [])
               \<and> (filter (\<lambda>ev. confirmed_hash ev = Some h) items \<noteq> [] \<longrightarrow> h \<in> tx_triggered st'))"
proof -
  have honest: "rc_hash x = txHash env"
    if "getTransactionReceipt env (txHash env) = Inr (Some x)" for x
    using assms(1) that by (auto simp: answers_what_is_asked_def)
  show ?thesis
    using assms(2)
    by (auto simp: poll_transactionConfirmed_def Let_def dest: honest
        split: sum.splits option.splits if_splits)
qed

lemma scan_finalized_latch:
  assumes "answers_what_is_asked env"
  shows "scan_finalized env ns acc st = (r, st') \<Longrightarrow> distinct ns \<Longrightarrow>
         tx_triggered st' = tx_triggered st \<and> batch_executed st \<subseteq> batch_executed st'
         \<and> lastFinalizedBatch st' = lastFinalizedBatch st
         \<and> (\<forall>items. r = Inr items \<longrightarrow>
               filter (\<lambda>ev. confirmed_hash ev = Some h) items
                 = filter (\<lambda>ev. confirmed_hash ev = Some h) acc
               \<and> length (filter (\<lambda>ev. finalized_batch ev = Some n) items)
                   \<le> length (filter (\<lambda>ev. finalized_batch ev = Some n) acc) + 1
               \<and> (n \<in> batch_executed st \<or> n \<notin> set ns \<longrightarrow>
                    filter (\<lambda>ev. finalized_batch ev = Some n) items
                      = filter (\<lambda>ev. finalized_batch ev = Some n) acc)
               \<and> (filter (\<lambda>ev. finalized_batch ev = Some n) items
                      \<noteq> filter (\<lambda>ev. finalized_batch ev = Some n) acc
                    \<longrightarrow> n \<in> batch_executed st'))"
proof (induction ns arbitrary: acc st)
  case Nil
  then show ?case by auto
next
  case (Cons m ns)
  from Cons.prems(2) have dist: "distinct ns" and mn: "m \<notin> set ns" by auto
  show ?case
  proof (cases "getL1BatchDetails env m")
    case (Inl e)
    with Cons.prems(1) show ?thesis by auto
  next
    case (Inr d)
    with assms have num: "bd_number d = m" by (auto simp: answers_what_is_asked_def)
    show ?thesis
    proof (cases "bd_status d = ''verified'' \<and> truthy_string (bd_executeTxHash d)
                  \<and> m \<notin> batch_executed st")
      case False
      with Inr Cons.prems(1) have rest: "scan_finalized env ns acc st = (r, st')"
        by (auto simp: Let_def)
      from Cons.IH [OF rest dist] False show ?thesis
        by auto
    next
      case True
      define ev where "ev = BlockFinalizedEvent (bd_number d) (bd_status d) (bd_commitTxHash d)
        (bd_proveTxHash d) (bd_executeTxHash d) (config_name env)"
      define st1 where "st1 = st\<lparr>batch_executed := insert m (batch_executed st)\<rparr>"
      from True Inr Cons.prems(1) have rest: "scan_finalized env ns (acc @ [ev]) st1 = (r, st')"
        by (simp add: Let_def ev_def st1_def)
      note ih = Cons.IH [OF rest dist]
      have evb: "finalized_batch ev = Some m" "confirmed_hash ev = None"
        by (simp_all add: ev_def num)
      have st1: "tx_triggered st1 = tx_triggered st" "lastFinalizedBatch st1 = lastFinalizedBatch st"
        "batch_executed st1 = insert m (batch_executed st)"
        by (simp_all add: st1_def)
      show ?thesis
      proof (cases "m = n")
        case True
        with ih st1 evb mn \<open>m \<notin> set ns\<close> True show ?thesis
          using \<open>bd_status d = ''verified'' \<and> truthy_string (bd_executeTxHash d)
                  \<and> m \<notin> batch_executed st\<close>
          by auto
      next
        case False
        with ih st1 evb show ?thesis by auto
      qed
    qed
  qed
qed

lemma poll_blockFinalized_latch:
  assumes "answers_what_is_asked env" and "poll_blockFinalized env st = (r, st')"
  shows "tx_triggered st' = tx_triggered st \<and> batch_executed st \<subseteq> batch_executed st'
         \<and> (\<forall>items. r = Inr items \<longrightarrow>
               filter (\<lambda>ev. confirmed_hash ev = Some h) items = []
               \<and> length (filter (\<lambda>ev. finalized_batch ev = Some n) items) \<le> 1
               \<and> (n \<in> batch_executed st \<longrightarrow> filter (\<lambda>ev. finalized_batch ev = Some n) items = [])
               \<and> (filter (\<lambda>ev. finalized_batch ev = Some n) items \<noteq> [] \<longrightarrow> n \<in> batch_executed st'))"
proof (cases "getL1BatchNumber env")
  case (Inl e)
  with assms(2) show ?thesis by (auto simp: poll_blockFinalized_def)
next
  case (Inr c)
  define lo where "lo = or_default (lastFinalizedBatch st) (c - 10) + 1"
  obtain r1 st1 where sc: "scan_finalized env [lo..c] [] st = (r1, st1)"
    by (cases "scan_finalized env [lo..c] [] st") auto
  have dist: "distinct [lo..c]" by simp
  note sl = scan_finalized_latch [OF assms(1) sc dist, of h n]
  from assms(2) Inr sc have res: "r = r1"
    "tx_triggered st' = tx_triggered st1" "batch_executed st' = batch_executed st1"
    by (auto simp: poll_blockFinalized_def Let_def lo_def split: sum.splits)
  from sl res show ?thesis by auto
qed


lemma poll_latch:
  assumes "answers_what_is_asked env" and "poll env st = (r, st')"
  shows "tx_triggered st \<subseteq> tx_triggered st' \<and> batch_executed st \<subseteq> batch_executed st'
         \<and> (\<forall>items. r = Inr items \<longrightarrow>
               length (filter (\<lambda>ev. confirmed_hash ev = Some h) items) \<le> 1
               \<and> (h \<in> tx_triggered st \<longrightarrow> filter (\<lambda>ev. confirmed_hash ev = Some h) items = [])
               \<and> (filter (\<lambda>ev. confirmed_hash ev = Some h) items \<noteq> [] \<longrightarrow> h \<in> tx_triggered st')
               \<and> length (filter (\<lambda>ev. finalized_batch ev = Some n) items) \<le> 1
               \<and> (n \<in> batch_executed st \<longrightarrow> filter (\<lambda>ev. finalized_batch ev = Some n) items = [])
               \<and> (filter (\<lambda>ev. finalized_batch ev = Some n) items \<noteq> [] \<longrightarrow> n \<in> batch_executed st'))"
proof -
  consider "triggerOn env = TransactionConfirmed" | "triggerOn env = BlockFinalized"
    | "triggerOn env \<noteq> TransactionConfirmed" "triggerOn env \<noteq> BlockFinalized"
    by blast
  then show ?thesis
  proof cases
    case 1
    with assms(2) have "poll_transactionConfirmed env st = (r, st')"
      by (simp add: poll_def)
    from poll_transactionConfirmed_latch [OF assms(1) this, of n h] show ?thesis
      by auto
  next
    case 2
    with assms(2) have "poll_blockFinalized env st = (r, st')"
      by (simp add: poll_def)
    from poll_blockFinalized_latch [OF assms(1) this, of h n] show ?thesis
      by auto
  next
    case 3
    have a: "tx_triggered st' = tx_triggered st \<and> batch_executed st' = batch_executed st
         \<and> (\<forall>items. r = Inr items \<longrightarrow> filter (\<lambda>ev. confirmed_hash ev = Some h) items = [])"
      by (rule poll_unlatched [OF 3 _ _ _ _ _ _ _ assms(2)]) simp_all
    have b: "tx_triggered st' = tx_triggered st \<and> batch_executed st' = batch_executed st
         \<and> (\<forall>items. r = Inr items \<longrightarrow> filter (\<lambda>ev. finalized_batch ev = Some n) items = [])"
      by (rule poll_unlatched [OF 3 _ _ _ _ _ _ _ assms(2)]) simp_all
    from a b show ?thesis by simp
  qed
qed

text \<open>
  For a provider that answers what it is asked, the key of an item is also the hash, resp.
  the batch number, that the item reports: then at most one emitted item reports a given
  hash, and at most one a given batch number.
\<close>

lemma reported_fields_at_most_once:
  assumes "\<forall>env\<in>set envs. answers_what_is_asked env"
  shows "length (filter (\<lambda>ev. confirmed_hash ev = Some h) (run_polls st envs)) \<le> 1
       \<and> length (filter (\<lambda>ev. finalized_batch ev = Some n) (run_polls st envs)) \<le> 1
       \<and> (h \<in> tx_triggered st \<longrightarrow>
            filter (\<lambda>ev. confirmed_hash ev = Some h) (run_polls st envs) = [])
       \<and> (n \<in> batch_executed st \<longrightarrow>
            filter (\<lambda>ev. finalized_batch ev = Some n) (run_polls st envs) = [])"
  using assms
proof (induction envs arbitrary: st)
  case Nil
  show ?case by simp
next
  case (Cons env envs)
  obtain r st' where p: "poll env st = (r, st')" by (cases "poll env st") auto
  from Cons.prems have honest: "answers_what_is_asked env"
    and rest: "\<forall>env\<in>set envs. answers_what_is_asked env" by auto
  note one = poll_latch [OF honest p, of h n]
  note ih = Cons.IH [OF rest, of st']
  show ?case
  proof (cases r)
    case (Inl e)
    with p have "run_polls st (env # envs) = run_polls st' envs" by simp
    with ih one show ?thesis by auto
  next
    case (Inr items)
    with p have run: "run_polls st (env # envs) = items @ run_polls st' envs" by simp
    let ?T = "\<lambda>ev. confirmed_hash ev = Some h"
    let ?B = "\<lambda>ev. finalized_batch ev = Some n"
    have tx: "length (filter ?T (items @ run_polls st' envs)) \<le> 1"
    proof (cases "filter ?T items = []")
      case True
      with ih show ?thesis by simp
    next
      case False
      with one Inr have "h \<in> tx_triggered st'" by simp
      with ih have "filter ?T (run_polls st' envs) = []" by simp
      with one Inr show ?thesis by simp
    qed
    have ba: "length (filter ?B (items @ run_polls st' envs)) \<le> 1"
    proof (cases "filter ?B items = []")
      case True
      with ih show ?thesis by simp
    next
      case False
      with one Inr have "n \<in> batch_executed st'" by simp
      with ih have "filter ?B (run_polls st' envs) = []" by simp
      with one Inr show ?thesis by simp
    qed
    have txl: "filter ?T (items @ run_polls st' envs) = []" if "h \<in> tx_triggered st"
    proof -
      from that one have "h \<in> tx_triggered st'" by auto
      with ih that one Inr show ?thesis by simp
    qed
    have bal: "filter ?B (items @ run_polls st' envs) = []" if "n \<in> batch_executed st"
    proof -
      from that one have "n \<in> batch_executed st'" by auto
      with ih that one Inr show ?thesis by simp
    qed
    from tx ba txl bal show ?thesis unfolding run by blast
  qed
qed

text \<open>The attribution of the items of the \<open>blockFinalized\<close> loop to its loop indices.\<close>

lemma scan_finalized_state:
  "scan_finalized env ns acc st = (r, st') \<Longrightarrow>
     tx_triggered st' = tx_triggered st \<and> batch_executed st \<subseteq> batch_executed st'"
proof (induction ns arbitrary: acc st)
  case Nil
  then show ?case by auto
next
  case (Cons n ns)
  show ?case
  proof (cases "getL1BatchDetails env n")
    case (Inl e)
    with Cons.prems show ?thesis by auto
  next
    case (Inr d)
    show ?thesis
    proof (cases "bd_status d = ''verified'' \<and> truthy_string (bd_executeTxHash d)
                  \<and> n \<notin> batch_executed st")
      case True
      with Inr Cons.prems obtain acc' where
        "scan_finalized env ns acc' (st\<lparr>batch_executed := insert n (batch_executed st)\<rparr>)
           = (r, st')"
        by (auto simp: Let_def)
      from Cons.IH [OF this] show ?thesis by auto
    next
      case False
      with Inr Cons.prems have "scan_finalized env ns acc st = (r, st')"
        by (auto simp: Let_def)
      from Cons.IH [OF this] show ?thesis .
    qed
  qed
qed

lemma finalized_pushes_keys:
  "distinct ns \<Longrightarrow>
     distinct (map fst (finalized_pushes env ns st))
     \<and> fst ` set (finalized_pushes env ns st) \<subseteq> set ns - batch_executed st"
proof (induction ns arbitrary: st)
  case Nil
  show ?case by simp
next
  case (Cons n ns)
  then have dist: "distinct ns" and fresh: "n \<notin> set ns" by auto
  show ?case
  proof (cases "getL1BatchDetails env n")
    case (Inl e)
    then show ?thesis by simp
  next
    case (Inr d)
    show ?thesis
    proof (cases "bd_status d = ''verified'' \<and> truthy_string (bd_executeTxHash d)
                  \<and> n \<notin> batch_executed st")
      case True
      note ih = Cons.IH [OF dist, of "st\<lparr>batch_executed := insert n (batch_executed st)\<rparr>"]
      from True Inr ih fresh show ?thesis by auto
    next
      case False
      note ih = Cons.IH [OF dist, of st]
      from False Inr ih show ?thesis by auto
    qed
  qed
qed

lemma finalized_pushes_items:
  "scan_finalized env ns acc st = (Inr items, st') \<Longrightarrow>
     items = acc @ map snd (finalized_pushes env ns st)
     \<and> fst ` set (finalized_pushes env ns st) \<subseteq> batch_executed st'"
proof (induction ns arbitrary: acc st)
  case Nil
  then show ?case by simp
next
  case (Cons n ns)
  show ?case
  proof (cases "getL1BatchDetails env n")
    case (Inl e)
    with Cons.prems show ?thesis by simp
  next
    case (Inr d)
    show ?thesis
    proof (cases "bd_status d = ''verified'' \<and> truthy_string (bd_executeTxHash d)
                  \<and> n \<notin> batch_executed st")
      case True
      define ev where "ev = BlockFinalizedEvent (bd_number d) (bd_status d) (bd_commitTxHash d)
        (bd_proveTxHash d) (bd_executeTxHash d) (config_name env)"
      define st1 where "st1 = st\<lparr>batch_executed := insert n (batch_executed st)\<rparr>"
      from True Inr Cons.prems have rest: "scan_finalized env ns (acc @ [ev]) st1 = (Inr items, st')"
        by (simp add: Let_def ev_def st1_def)
      from scan_finalized_state [OF rest] have "n \<in> batch_executed st'"
        by (auto simp: st1_def)
      moreover have "finalized_pushes env (n # ns) st = (n, ev) # finalized_pushes env ns st1"
        using True Inr by (simp add: ev_def st1_def)
      ultimately show ?thesis using Cons.IH [OF rest] by simp
    next
      case False
      with Inr Cons.prems have rest: "scan_finalized env ns acc st = (Inr items, st')"
        by (auto simp: Let_def)
      moreover have "finalized_pushes env (n # ns) st = finalized_pushes env ns st"
        using False Inr by auto
      ultimately show ?thesis using Cons.IH [OF rest] by simp
    qed
  qed
qed

lemma finalized_pushes_latch_items:
  "filter latch_item (map snd (finalized_pushes env ns st)) = map snd (finalized_pushes env ns st)"
  by (induction ns arbitrary: st) (auto simp: latch_item_def split: sum.splits)

text \<open>
  One invocation: latches are only ever set; the keys of its items are distinct, not
  latched before it and latched after it; and its keyed items are its items of the two
  latched kinds.
\<close>

lemma keyed_items_transactionConfirmed:
  assumes "triggerOn env = TransactionConfirmed" and "poll env st = (r, st')"
  shows "latched st \<subseteq> latched st' \<and> distinct (map fst (keyed_items env st))
         \<and> fst ` set (keyed_items env st) \<inter> latched st = {}
         \<and> fst ` set (keyed_items env st) \<subseteq> latched st'
         \<and> map snd (keyed_items env st)
             = filter latch_item (case r of Inl e \<Rightarrow> [] | Inr items \<Rightarrow> items)"
  using assms
  by (auto simp: keyed_items_def poll_def poll_transactionConfirmed_def latched_def
      latch_item_def Let_def split: sum.splits option.splits if_splits)

lemma keyed_items_blockFinalized:
  assumes "triggerOn env = BlockFinalized" and "poll env st = (r, st')"
  shows "latched st \<subseteq> latched st' \<and> distinct (map fst (keyed_items env st))
         \<and> fst ` set (keyed_items env st) \<inter> latched st = {}
         \<and> fst ` set (keyed_items env st) \<subseteq> latched st'
         \<and> map snd (keyed_items env st)
             = filter latch_item (case r of Inl e \<Rightarrow> [] | Inr items \<Rightarrow> items)"
proof (cases "getL1BatchNumber env")
  case (Inl e)
  with assms show ?thesis
    by (auto simp: keyed_items_def poll_def poll_blockFinalized_def)
next
  case (Inr c)
  define ns where "ns = [or_default (lastFinalizedBatch st) (c - 10) + 1..c]"
  obtain r1 st1 where sc: "scan_finalized env ns [] st = (r1, st1)"
    by (cases "scan_finalized env ns [] st") auto
  from assms Inr sc have res: "r = r1" "tx_triggered st' = tx_triggered st1"
    "batch_executed st' = batch_executed st1"
    by (auto simp: poll_def poll_blockFinalized_def Let_def ns_def split: sum.splits)
  from scan_finalized_state [OF sc] res have mono: "latched st \<subseteq> latched st'"
    by (auto simp: latched_def)
  show ?thesis
  proof (cases r1)
    case (Inl e)
    with assms res have "keyed_items env st = []"
      by (simp add: keyed_items_def)
    with mono Inl res show ?thesis by simp
  next
    case (Inr items)
    with assms res \<open>getL1BatchNumber env = Inr c\<close> have keyed:
      "keyed_items env st = map (\<lambda>(n, item). (BatchKey n, item)) (finalized_pushes env ns st)"
      by (simp add: keyed_items_def ns_def)
    have fsts: "map fst (keyed_items env st) = map BatchKey (map fst (finalized_pushes env ns st))"
      and snds: "map snd (keyed_items env st) = map snd (finalized_pushes env ns st)"
      unfolding keyed by (simp_all add: case_prod_unfold)
    have dist: "distinct ns" by (simp add: ns_def)
    note keys = finalized_pushes_keys [OF dist, of env st]
    from sc Inr have "scan_finalized env ns [] st = (Inr items, st1)" by simp
    note its = finalized_pushes_items [OF this]
    have d: "distinct (map fst (keyed_items env st))"
      unfolding fsts using keys by (simp add: distinct_map inj_on_def)
    have set_fst: "fst ` set (keyed_items env st) = BatchKey ` fst ` set (finalized_pushes env ns st)"
      using fsts by (metis image_set)
    have before: "fst ` set (keyed_items env st) \<inter> latched st = {}"
      unfolding set_fst using keys by (auto simp: latched_def)
    have after: "fst ` set (keyed_items env st) \<subseteq> latched st'"
      unfolding set_fst using its res by (auto simp: latched_def)
    have "map snd (keyed_items env st) = filter latch_item items"
      unfolding snds using its finalized_pushes_latch_items [of env ns st] by simp
    with mono d before after Inr res show ?thesis by simp
  qed
qed

lemma keyed_items_unlatched:
  assumes "triggerOn env \<noteq> TransactionConfirmed" and "triggerOn env \<noteq> BlockFinalized"
    and "poll env st = (r, st')"
  shows "latched st \<subseteq> latched st' \<and> distinct (map fst (keyed_items env st))
         \<and> fst ` set (keyed_items env st) \<inter> latched st = {}
         \<and> fst ` set (keyed_items env st) \<subseteq> latched st'
         \<and> map snd (keyed_items env st)
             = filter latch_item (case r of Inl e \<Rightarrow> [] | Inr items \<Rightarrow> items)"
proof -
  have u: "tx_triggered st' = tx_triggered st \<and> batch_executed st' = batch_executed st
         \<and> (\<forall>items. r = Inr items \<longrightarrow> filter latch_item items = [])"
    by (rule poll_unlatched [OF assms(1,2) _ _ _ _ _ _ _ assms(3)])
       (simp_all add: latch_item_def)
  from assms(1,2) have "keyed_items env st = []"
    by (cases "triggerOn env") (auto simp: keyed_items_def split: prod.splits sum.splits)
  with u show ?thesis by (cases r) (auto simp: latched_def)
qed

lemma distinct_keys_count:
  "distinct (map fst xs) \<Longrightarrow> length (filter (\<lambda>p. fst p = k) xs) \<le> 1"
proof (induction xs)
  case Nil
  show ?case by simp
next
  case (Cons a xs)
  show ?case
  proof (cases "fst a = k")
    case True
    with Cons.prems have "\<forall>p\<in>set xs. fst p \<noteq> k" by (auto simp: image_iff)
    then have "filter (\<lambda>p. fst p = k) xs = []" by (simp add: filter_empty_conv)
    with True show ?thesis by simp
  next
    case False
    with Cons show ?thesis by simp
  qed
qed

lemma keyed_items_invocation:
  assumes "poll env st = (r, st')"
  shows "latched st \<subseteq> latched st' \<and> distinct (map fst (keyed_items env st))
         \<and> fst ` set (keyed_items env st) \<inter> latched st = {}
         \<and> fst ` set (keyed_items env st) \<subseteq> latched st'
         \<and> map snd (keyed_items env st)
             = filter latch_item (case r of Inl e \<Rightarrow> [] | Inr items \<Rightarrow> items)"
proof -
  consider "triggerOn env = TransactionConfirmed" | "triggerOn env = BlockFinalized"
    | "triggerOn env \<noteq> TransactionConfirmed" "triggerOn env \<noteq> BlockFinalized"
    by blast
  then show ?thesis
  proof cases
    case 1
    then show ?thesis using assms by (rule keyed_items_transactionConfirmed)
  next
    case 2
    then show ?thesis using assms by (rule keyed_items_blockFinalized)
  next
    case 3
    then show ?thesis using assms by (rule keyed_items_unlatched)
  qed
qed

text \<open>
  C5: over any sequence of invocations, of any kinds and with any parameters, on any
  static data and with any provider, the items of the two latched kinds are emitted at
  most once per key: at most one item is pushed under any watched transaction hash and
  at most one under any batch number of the loop (the keys of the pushes are distinct),
  and none is pushed under a hash or batch whose latch is already set. The keyed items
  are exactly the \<open>transactionConfirmed\<close> and \<open>blockFinalized\<close> items that the
  sequence emits, in order.
\<close>

theorem latched_items_emitted_at_most_once:
  "(\<forall>k. length (filter (\<lambda>p. fst p = k) (run_keyed st envs)) \<le> 1)
   \<and> distinct (map fst (run_keyed st envs))
   \<and> fst ` set (run_keyed st envs) \<inter> latched st = {}
   \<and> map snd (run_keyed st envs) = filter latch_item (run_polls st envs)"
proof -
  have "distinct (map fst (run_keyed st envs))
   \<and> fst ` set (run_keyed st envs) \<inter> latched st = {}
   \<and> map snd (run_keyed st envs) = filter latch_item (run_polls st envs)"
  proof (induction envs arbitrary: st)
    case Nil
    show ?case by simp
  next
    case (Cons env envs)
    obtain r st' where p: "poll env st = (r, st')" by (cases "poll env st") auto
    note one = keyed_items_invocation [OF p]
    note ih = Cons.IH [of st']
    have run: "run_keyed st (env # envs) = keyed_items env st @ run_keyed st' envs"
      using p by simp
    have polls: "run_polls st (env # envs)
        = (case r of Inl e \<Rightarrow> [] | Inr items \<Rightarrow> items) @ run_polls st' envs"
      using p by (cases r) simp_all
    have apart: "fst ` set (keyed_items env st) \<inter> fst ` set (run_keyed st' envs) = {}"
      using one ih by blast
    have "distinct (map fst (run_keyed st (env # envs)))"
      unfolding run using one ih apart by simp
    moreover have "fst ` set (run_keyed st (env # envs)) \<inter> latched st = {}"
      unfolding run using one ih by (simp add: image_Un) blast
    moreover have "map snd (run_keyed st (env # envs)) = filter latch_item (run_polls st (env # envs))"
      unfolding run polls using one ih by simp
    ultimately show ?case by blast
  qed
  moreover from this have "distinct (map fst (run_keyed st envs))" by (rule conjunct1)
  then have "\<forall>k. length (filter (\<lambda>p. fst p = k) (run_keyed st envs)) \<le> 1"
    by (intro allI distinct_keys_count)
  ultimately show ?thesis by (rule conjI [rotated])
qed

theorem latched_items_emitted_at_most_once_witness:
  "run_keyed (fresh_static_data\<lparr>lastFinalizedBatch := Some 100\<rparr>)
     [confirming_env, finalizing_env, confirming_env, finalizing_env]
     = [(TxKey ''0xabc'',
         TransactionConfirmedEvent ''0xabc'' ''success'' 5 3 ''0x01'' None None
           ''zkSync Era Mainnet''),
        (BatchKey 101,
         BlockFinalizedEvent 101 ''verified'' None None (Some ''0xe1'') ''zkSync Era Mainnet''),
        (BatchKey 102,
         BlockFinalizedEvent 102 ''verified'' None None (Some ''0xe1'') ''zkSync Era Mainnet'')]
   \<and> distinct (map fst (run_keyed (fresh_static_data\<lparr>lastFinalizedBatch := Some 100\<rparr>)
        [confirming_env, finalizing_env, confirming_env, finalizing_env]))
   \<and> map snd (run_keyed (fresh_static_data\<lparr>lastFinalizedBatch := Some 100\<rparr>)
        [confirming_env, finalizing_env, confirming_env, finalizing_env])
     = run_polls (fresh_static_data\<lparr>lastFinalizedBatch := Some 100\<rparr>)
        [confirming_env, finalizing_env, confirming_env, finalizing_env]"
proof -
  let ?envs = "[confirming_env, finalizing_env, confirming_env, finalizing_env]"
  let ?st = "fresh_static_data\<lparr>lastFinalizedBatch := Some 100\<rparr>"
  have k: "run_keyed ?st ?envs
     = [(TxKey ''0xabc'',
         TransactionConfirmedEvent ''0xabc'' ''success'' 5 3 ''0x01'' None None
           ''zkSync Era Mainnet''),
        (BatchKey 101,
         BlockFinalizedEvent 101 ''verified'' None None (Some ''0xe1'') ''zkSync Era Mainnet''),
        (BatchKey 102,
         BlockFinalizedEvent 102 ''verified'' None None (Some ''0xe1'') ''zkSync Era Mainnet'')]"
    by (simp add: keyed_items_def poll_eval)
  have r: "filter latch_item (run_polls ?st ?envs) = run_polls ?st ?envs"
    by (simp add: poll_eval latch_item_def)
  note t = latched_items_emitted_at_most_once [of ?st ?envs]
  from t have d: "distinct (map fst (run_keyed ?st ?envs))" by (rule conjunct2 [THEN conjunct1])
  from t have "map snd (run_keyed ?st ?envs) = filter latch_item (run_polls ?st ?envs)"
    by (rule conjunct2 [THEN conjunct2, THEN conjunct2])
  from this r have m: "map snd (run_keyed ?st ?envs) = run_polls ?st ?envs" by (rule trans)
  from k d m show ?thesis by blast
qed

text \<open>
  An invocation of any kind but \<open>blockFinalized\<close> that throws leaves the static data as
  it found it; one of \<open>blockFinalized\<close> leaves the watermark, not the latches.
\<close>

lemma poll_failure_keeps_state:
  assumes "triggerOn env \<noteq> BlockFinalized" and "poll env st = (Inl e, st')"
  shows "st' = st"
proof (cases "triggerOn env")
  case NewBlock
  with assms(2) show ?thesis
    by (auto simp: poll_def poll_newBlock_def Let_def split: sum.splits if_splits)
next
  case NewL1Batch
  with assms(2) show ?thesis
    by (auto simp: poll_def poll_newL1Batch_def Let_def split: sum.splits if_splits)
next
  case TransactionConfirmed
  with assms(2) show ?thesis
    by (auto simp: poll_def poll_transactionConfirmed_def Let_def
        split: sum.splits option.splits if_splits)
next
  case EthReceived
  with assms(2) show ?thesis
    by (auto simp: poll_def poll_ethTransfer_def Let_def split: sum.splits if_splits)
next
  case EthSent
  with assms(2) show ?thesis
    by (auto simp: poll_def poll_ethTransfer_def Let_def split: sum.splits if_splits)
next
  case TokenTransfer
  with assms(2) show ?thesis
    by (auto simp: poll_def poll_tokenTransfer_def Let_def split: sum.splits if_splits)
next
  case NftTransfer
  with assms(2) show ?thesis
    by (auto simp: poll_def poll_nftTransfer_def Let_def split: sum.splits if_splits)
next
  case ContractEvent
  with assms(2) show ?thesis
    by (auto simp: poll_def poll_contractEvent_def Let_def
        split: sum.splits list.splits if_splits)
next
  case BlockFinalized
  with assms(1) show ?thesis by simp
next
  case BalanceChange
  with assms(2) show ?thesis
    by (auto simp: poll_def poll_balanceChange_def Let_def
        split: sum.splits option.splits if_splits)
qed

lemma poll_blockFinalized_failure_keeps_watermark:
  assumes "triggerOn env = BlockFinalized" and "poll env st = (Inl e, st')"
  shows "lastFinalizedBatch st' = lastFinalizedBatch st"
proof (cases "getL1BatchNumber env")
  case (Inl x)
  with assms show ?thesis by (simp add: poll_def poll_blockFinalized_def)
next
  case (Inr c)
  have keep: "lastFinalizedBatch (snd (scan_finalized env ns acc s)) = lastFinalizedBatch s"
    for ns acc s
    by (induction ns arbitrary: acc s) (auto simp: Let_def split: sum.splits)
  from assms Inr show ?thesis
    using keep [of "[or_default (lastFinalizedBatch st) (c - 10) + 1..c]" "[]" st]
    by (auto simp: poll_def poll_blockFinalized_def Let_def split: prod.splits sum.splits)
qed

text \<open>
  C2: when the scan of \<open>(W, C]\<close> throws, no cursor state has advanced and every
  qualifying item of the range is emitted by a later invocation. Every other kind writes
  nothing before its scan has completed (\<open>poll_failure_keeps_state\<close>). The
  \<open>blockFinalized\<close> loop writes its latch
  before it looks at the next batch: with the watermark at 100, batch 101 verified and
  the query for batch 102 failing, the invocation throws, emits nothing and leaves the
  latch of batch 101 set. The next invocation, on a provider that answers every query
  with a verified batch, emits batch 102 only and moves the watermark to 102: batch 101
  is never emitted.
\<close>

theorem blockFinalized_partial_failure_loses_item:
  "poll failing_env (fresh_static_data\<lparr>lastFinalizedBatch := Some 100\<rparr>)
     = (Inl (RpcFailure ''timeout''),
        fresh_static_data\<lparr>lastFinalizedBatch := Some 100, batch_executed := {101}\<rparr>)
   \<and> run_polls (fresh_static_data\<lparr>lastFinalizedBatch := Some 100\<rparr>)
        [failing_env, finalizing_env]
     = [BlockFinalizedEvent 102 ''verified'' None None (Some ''0xe1'') ''zkSync Era Mainnet'']
   \<and> final_state (fresh_static_data\<lparr>lastFinalizedBatch := Some 100\<rparr>)
        [failing_env, finalizing_env]
     = fresh_static_data\<lparr>lastFinalizedBatch := Some 102, batch_executed := {101, 102}\<rparr>
   \<and> run_polls (fresh_static_data\<lparr>lastFinalizedBatch := Some 100\<rparr>) [finalizing_env]
     = [BlockFinalizedEvent 101 ''verified'' None None (Some ''0xe1'') ''zkSync Era Mainnet'',
        BlockFinalizedEvent 102 ''verified'' None None (Some ''0xe1'') ''zkSync Era Mainnet'']"
  by (simp add: poll_eval insert_commute)

section \<open>The poller: balance snapshots\<close>

lemma is_digit_not_whitespace: "is_digit c \<Longrightarrow> \<not> is_whitespace c"
  by (auto simp: is_digit_def is_whitespace_def)

lemma trim_id:
  assumes "s \<noteq> []" and "\<not> is_whitespace (hd s)" and "\<not> is_whitespace (last s)"
  shows "trim s = s"
proof -
  from assms have "dropWhile is_whitespace s = s"
    by (simp add: dropWhile_eq_self_iff)
  moreover from assms have "dropWhile is_whitespace (rev s) = rev s"
    by (simp add: dropWhile_eq_self_iff hd_rev)
  ultimately show ?thesis by (simp add: trim_def)
qed

lemma digit_of_base_10: "is_digit c \<Longrightarrow> digit_of_base 10 c = Some (digit_val c)"
  by (auto simp: digit_of_base_def is_digit_def digit_val_def Let_def)

lemma foldl_digits_10:
  "list_all is_digit s \<Longrightarrow>
   foldl (\<lambda>a c. 10 * a + the (digit_of_base 10 c)) a0 s = foldl (\<lambda>a c. 10 * a + digit_val c) a0 s"
  by (induction s arbitrary: a0) (simp_all add: digit_of_base_10)

lemma digits_of_base_10:
  assumes "s \<noteq> []" and "list_all is_digit s"
  shows "digits_of_base 10 s = Inr (int (nat_of_dec s))"
proof -
  from assms(2) have "list_all (\<lambda>c. digit_of_base 10 c \<noteq> None) s"
    by (auto simp: list_all_iff digit_of_base_10)
  with assms show ?thesis
    by (simp add: digits_of_base_def nat_of_dec_def foldl_digits_10)
qed

lemma digit_string_ends:
  assumes "s \<noteq> []" and "list_all is_digit s"
  shows "is_digit (hd s)" and "is_digit (last s)"
  using assms by (auto simp: list_all_iff)

lemma BigInt_dec_of_nat: "BigInt (dec_of_nat n) = Inr (int n)"
proof -
  define s where "s = dec_of_nat n"
  have ne: "s \<noteq> []" and dg: "list_all is_digit s"
    by (simp_all add: s_def dec_of_nat_nonempty dec_of_nat_digits)
  from digit_string_ends [OF ne dg] have tr: "trim s = s"
    by (intro trim_id ne is_digit_not_whitespace)
  obtain c r where cr: "s = c # r" using ne by (cases s) auto
  with dg have c: "is_digit c" and r: "list_all is_digit r" by auto
  from c have c1: "c \<noteq> CHR ''+''" "c \<noteq> CHR ''-''" by (auto simp: is_digit_def)
  have r1: "hd r \<noteq> CHR ''x''" "hd r \<noteq> CHR ''X''" "hd r \<noteq> CHR ''o''" "hd r \<noteq> CHR ''O''"
    "hd r \<noteq> CHR ''b''" "hd r \<noteq> CHR ''B''" if "r \<noteq> []"
    using that r by (cases r; auto simp: is_digit_def)+
  have "BigInt s = digits_of_base 10 (c # r)"
    unfolding BigInt_def tr using c1 r1 by (auto simp: cr)
  also have "\<dots> = Inr (int (nat_of_dec s))"
    using digits_of_base_10 [OF ne dg] by (simp add: cr)
  finally show ?thesis by (simp add: s_def nat_of_dec_dec_of_nat)
qed

lemma BigInt_minus_dec_of_nat: "BigInt (CHR ''-'' # dec_of_nat n) = Inr (- int n)"
proof -
  define s where "s = dec_of_nat n"
  have ne: "s \<noteq> []" and dg: "list_all is_digit s"
    by (simp_all add: s_def dec_of_nat_nonempty dec_of_nat_digits)
  from digit_string_ends(2) [OF ne dg] have "\<not> is_whitespace (last (CHR ''-'' # s))"
    using ne by (simp add: is_digit_not_whitespace)
  moreover have "\<not> is_whitespace (hd (CHR ''-'' # s))" by (simp add: is_whitespace_def)
  ultimately have tr: "trim (CHR ''-'' # s) = CHR ''-'' # s"
    by (intro trim_id) simp_all
  show ?thesis
    unfolding BigInt_def tr s_def [symmetric]
    using digits_of_base_10 [OF ne dg] by (simp add: s_def nat_of_dec_dec_of_nat)
qed

lemma BigInt_bigint_toString: "BigInt (bigint_toString v) = Inr v"
  by (cases "v < 0") (simp_all add: bigint_toString_def BigInt_dec_of_nat BigInt_minus_dec_of_nat)

lemma bigint_toString_inj: "bigint_toString v = bigint_toString w \<longleftrightarrow> v = w"
proof
  assume "bigint_toString v = bigint_toString w"
  then have "BigInt (bigint_toString v) = BigInt (bigint_toString w)" by simp
  then show "v = w" by (simp add: BigInt_bigint_toString)
qed simp

text \<open>
  The snapshot is written by \<open>balanceChange\<close> invocations only, and what they write is
  the decimal string of a balance: a store that starts without a snapshot never holds
  any other string.
\<close>

lemma scan_finalized_lastBalance:
  "scan_finalized env ns acc st = (r, st') \<Longrightarrow> lastBalance st' = lastBalance st"
proof (induction ns arbitrary: acc st)
  case Nil
  then show ?case by auto
next
  case (Cons n ns)
  show ?case
  proof (cases "getL1BatchDetails env n")
    case (Inl e)
    with Cons.prems show ?thesis by auto
  next
    case (Inr d)
    show ?thesis
    proof (cases "bd_status d = ''verified'' \<and> truthy_string (bd_executeTxHash d)
                  \<and> n \<notin> batch_executed st")
      case True
      with Inr Cons.prems obtain acc' where
        "scan_finalized env ns acc' (st\<lparr>batch_executed := insert n (batch_executed st)\<rparr>)
           = (r, st')"
        by (auto simp: Let_def)
      from Cons.IH [OF this] show ?thesis by simp
    next
      case False
      with Inr Cons.prems have "scan_finalized env ns acc st = (r, st')"
        by (auto simp: Let_def)
      from Cons.IH [OF this] show ?thesis .
    qed
  qed
qed

lemma poll_snapshot_written:
  assumes "poll env st = (r, st')"
  shows "lastBalance st' = lastBalance st \<or> (\<exists>b. lastBalance st' = Some (bigint_toString b))"
proof (cases "triggerOn env")
  case NewBlock
  with assms show ?thesis
    by (auto simp: poll_def poll_newBlock_def Let_def split: sum.splits if_splits)
next
  case NewL1Batch
  with assms show ?thesis
    by (auto simp: poll_def poll_newL1Batch_def Let_def split: sum.splits if_splits)
next
  case TransactionConfirmed
  with assms show ?thesis
    by (auto simp: poll_def poll_transactionConfirmed_def Let_def
        split: sum.splits option.splits if_splits)
next
  case EthReceived
  with assms show ?thesis
    by (auto simp: poll_def poll_ethTransfer_def Let_def split: sum.splits if_splits)
next
  case EthSent
  with assms show ?thesis
    by (auto simp: poll_def poll_ethTransfer_def Let_def split: sum.splits if_splits)
next
  case TokenTransfer
  with assms show ?thesis
    by (auto simp: poll_def poll_tokenTransfer_def Let_def split: sum.splits if_splits)
next
  case NftTransfer
  with assms show ?thesis
    by (auto simp: poll_def poll_nftTransfer_def Let_def split: sum.splits if_splits)
next
  case ContractEvent
  with assms show ?thesis
    by (auto simp: poll_def poll_contractEvent_def Let_def
        split: sum.splits if_splits list.splits)
next
  case BlockFinalized
  with assms show ?thesis
    by (auto simp: poll_def poll_blockFinalized_def Let_def
        dest!: scan_finalized_lastBalance split: sum.splits prod.splits)
next
  case BalanceChange
  with assms show ?thesis
    by (auto simp: poll_def poll_balanceChange_def Let_def
        split: if_splits sum.splits option.splits)
qed

lemma final_state_snapshot_written:
  "lastBalance st = None \<or> (\<exists>p. lastBalance st = Some (bigint_toString p)) \<Longrightarrow>
   lastBalance (final_state st envs) = None
   \<or> (\<exists>p. lastBalance (final_state st envs) = Some (bigint_toString p))"
proof (induction envs arbitrary: st)
  case Nil
  then show ?case by simp
next
  case (Cons env envs)
  obtain r st' where p: "poll env st = (r, st')" by (cases "poll env st") auto
  from poll_snapshot_written [OF p] Cons.prems
  have "lastBalance st' = None \<or> (\<exists>p. lastBalance st' = Some (bigint_toString p))" by auto
  from Cons.IH [OF this] p show ?case by simp
qed

text \<open>The balances of the chain are unsigned 256-bit integers; they and their differences fit the renderer.\<close>

lemma is_uint256_fits: "is_uint256 v \<Longrightarrow> fits_fixed_format v"
proof -
  have "(2::int) ^ 256 \<le> 2 ^ 511" by (rule power_increasing) simp_all
  moreover assume "is_uint256 v"
  ultimately show ?thesis by (simp add: is_uint256_def fits_fixed_format_def)
qed

lemma is_uint256_difference_fits:
  assumes "is_uint256 v" and "is_uint256 w"
  shows "fits_fixed_format (v - w)"
proof -
  have "(2::int) ^ 256 \<le> 2 ^ 511" by (rule power_increasing) simp_all
  with assms show ?thesis by (simp add: is_uint256_def fits_fixed_format_def)
qed

lemma formatEther_fits: "fits_fixed_format v \<Longrightarrow> formatEther v = Inr (formatUnits v 18)"
  by (simp add: formatEther_def ethers_formatUnits_def)

text \<open>One \<open>balanceChange\<close> invocation on a snapshot that the poller has written.\<close>

lemma poll_balanceChange_first:
  assumes "triggerOn env = BalanceChange" and "isAddress env (watchAddress env)"
    and "getBalance env (watchAddress env) = Inr b" and "lastBalance st = None"
  shows "poll env st = (Inr [], st\<lparr>lastBalance := Some (bigint_toString b)\<rparr>)"
  using assms by (simp add: poll_def poll_balanceChange_def)

lemma poll_balanceChange_equal:
  assumes "triggerOn env = BalanceChange" and "isAddress env (watchAddress env)"
    and "getBalance env (watchAddress env) = Inr b"
    and "lastBalance st = Some (bigint_toString b)"
  shows "poll env st = (Inr [], st\<lparr>lastBalance := Some (bigint_toString b)\<rparr>)"
  using assms by (simp add: poll_def poll_balanceChange_def)

lemma poll_balanceChange_different:
  assumes "triggerOn env = BalanceChange" and "isAddress env (watchAddress env)"
    and "getBalance env (watchAddress env) = Inr b"
    and "lastBalance st = Some (bigint_toString p)" and "p \<noteq> b"
  shows "poll env st =
     (if fits_fixed_format p \<and> fits_fixed_format b \<and> fits_fixed_format (b - p)
      then (Inr [BalanceChangeEvent (watchAddress env) (bigint_toString p) (formatUnits p 18)
                   (bigint_toString b) (formatUnits b 18) (bigint_toString (b - p))
                   (formatUnits (b - p) 18) (if b - p > 0 then ''increase'' else ''decrease'')
                   (config_name env)],
            st\<lparr>lastBalance := Some (bigint_toString b)\<rparr>)
      else (Inl RangeError, st))"
  using assms
  by (simp add: poll_def poll_balanceChange_def BigInt_bigint_toString bigint_toString_inj
      formatEther_def ethers_formatUnits_def Let_def)

lemmas bigint_eval = BigInt_def trim_def is_whitespace_def digits_of_base_def digit_of_base_def
  bigint_toString_def formatEther_def ethers_formatUnits_def fits_fixed_format_def

text \<open>
  C6: the static data starts without a snapshot and is then whatever a sequence of
  invocations, of any kinds and with any surroundings, has made it. On such a store, for
  a valid watch address and a current balance \<open>b\<close>, a \<open>balanceChange\<close> invocation that
  completes has emitted exactly one item when there is a snapshot and the integer it
  denotes differs from \<open>b\<close>, and none otherwise; the snapshot it leaves is the decimal
  string of \<open>b\<close>, which denotes \<open>b\<close>. The snapshot it finds is absent or the decimal
  string of an integer. The invocation does complete when the current balance and the
  balance of the snapshot are unsigned 256-bit integers, as the balances of the chain are.
\<close>

theorem balanceChange_emits_on_integer_difference:
  assumes "lastBalance st0 = None" and "st = final_state st0 envs"
    and "triggerOn env = BalanceChange" and "isAddress env (watchAddress env)"
    and "getBalance env (watchAddress env) = Inr b"
  shows "(\<forall>items st'. poll env st = (Inr items, st') \<longrightarrow>
            length items
              = (if \<exists>s p. lastBalance st = Some s \<and> BigInt s = Inr p \<and> p \<noteq> b then 1 else 0)
            \<and> st' = st\<lparr>lastBalance := Some (bigint_toString b)\<rparr>
            \<and> BigInt (bigint_toString b) = Inr b)
       \<and> (lastBalance st = None \<or> (\<exists>p. lastBalance st = Some (bigint_toString p)))
       \<and> (is_uint256 b \<and> (\<forall>p. lastBalance st = Some (bigint_toString p) \<longrightarrow> is_uint256 p) \<longrightarrow>
            (\<exists>items st'. poll env st = (Inr items, st')))"
proof -
  from assms(1) have "lastBalance st0 = None \<or> (\<exists>p. lastBalance st0 = Some (bigint_toString p))"
    by simp
  from final_state_snapshot_written [OF this, of envs] assms(2)
  have written: "lastBalance st = None \<or> (\<exists>p. lastBalance st = Some (bigint_toString p))"
    by simp
  note env = assms(3-5)
  have emission: "length items
        = (if \<exists>s p. lastBalance st = Some s \<and> BigInt s = Inr p \<and> p \<noteq> b then 1 else 0)
      \<and> st' = st\<lparr>lastBalance := Some (bigint_toString b)\<rparr>
      \<and> BigInt (bigint_toString b) = Inr b"
    if completed: "poll env st = (Inr items, st')" for items st'
  proof -
    from written consider "lastBalance st = None" | "lastBalance st = Some (bigint_toString b)"
      | p where "lastBalance st = Some (bigint_toString p)" "p \<noteq> b"
      by auto
    then show ?thesis
    proof cases
      case 1
      from poll_balanceChange_first [OF env 1] completed 1 show ?thesis
        by (simp add: BigInt_bigint_toString)
    next
      case 2
      from poll_balanceChange_equal [OF env 2] completed 2 show ?thesis
        by (simp add: BigInt_bigint_toString)
    next
      case 3
      from poll_balanceChange_different [OF env 3] completed 3 show ?thesis
        by (auto simp: BigInt_bigint_toString split: if_splits)
    qed
  qed
  have completion: "\<exists>items st'. poll env st = (Inr items, st')"
    if range: "is_uint256 b \<and> (\<forall>p. lastBalance st = Some (bigint_toString p) \<longrightarrow> is_uint256 p)"
  proof -
    from written consider "lastBalance st = None" | "lastBalance st = Some (bigint_toString b)"
      | p where "lastBalance st = Some (bigint_toString p)" "p \<noteq> b"
      by auto
    then show ?thesis
    proof cases
      case 1
      from poll_balanceChange_first [OF env 1] show ?thesis by blast
    next
      case 2
      from poll_balanceChange_equal [OF env 2] show ?thesis by blast
    next
      case 3
      with range have "is_uint256 p" and "is_uint256 b" by auto
      then have "fits_fixed_format p" "fits_fixed_format b" "fits_fixed_format (b - p)"
        by (simp_all add: is_uint256_fits is_uint256_difference_fits)
      with poll_balanceChange_different [OF env 3] show ?thesis by simp
    qed
  qed
  from emission written completion show ?thesis by blast
qed

theorem balanceChange_emits_on_integer_difference_witness:
  "\<exists>items st'. poll balance_env (final_state fresh_static_data [earlier_balance_env])
                  = (Inr items, st')
               \<and> length items = 1 \<and> lastBalance st' = Some ''7''"
proof -
  let ?st = "final_state fresh_static_data [earlier_balance_env]"
  have a: "lastBalance fresh_static_data = None" "?st = final_state fresh_static_data [earlier_balance_env]"
    "triggerOn balance_env = BalanceChange"
    "isAddress balance_env (watchAddress balance_env)"
    "getBalance balance_env (watchAddress balance_env) = Inr 7"
    by (simp_all add: balance_env_def offline_env_def fresh_static_data_def)
  note t = balanceChange_emits_on_integer_difference [OF a]
  have s: "lastBalance ?st = Some (bigint_toString 5)"
    by (simp add: poll_eval earlier_balance_env_def)
  have five: "BigInt (bigint_toString 5) = Inr 5" by (rule BigInt_bigint_toString)
  have seven: "bigint_toString 7 = ''7''" by (simp add: bigint_toString_def dec_eval)
  have range: "is_uint256 7 \<and> (\<forall>p. lastBalance ?st = Some (bigint_toString p) \<longrightarrow> is_uint256 p)"
    unfolding s by (auto simp: bigint_toString_inj is_uint256_def)
  with t obtain items st' where completed: "poll balance_env ?st = (Inr items, st')" by blast
  with t have "length items
        = (if \<exists>s p. lastBalance ?st = Some s \<and> BigInt s = Inr p \<and> p \<noteq> 7 then 1 else 0)"
    and st': "st' = ?st\<lparr>lastBalance := Some (bigint_toString 7)\<rparr>"
    by blast+
  moreover from s five have "\<exists>s p. lastBalance ?st = Some s \<and> BigInt s = Inr p \<and> p \<noteq> 7"
    by (intro exI [of _ "bigint_toString 5"] exI [of _ 5]) simp
  ultimately have "length items = 1" by simp
  with completed st' seven show ?thesis by simp
qed

section \<open>Address validation in execute\<close>

lemma createZkSyncClient_trace:
  "createZkSyncClient env n u k = (r, trace) \<Longrightarrow>
     (\<forall>cl. r = Inr cl \<longrightarrow> trace = [Req_getNetwork]) \<and> set trace \<subseteq> {Req_getNetwork}"
  by (auto simp: createZkSyncClient_def Let_def split: if_splits sum.splits)

lemmas execute_eval = execute_item_def createZkSyncClient_def execute_account_def
  execute_getAccountType_def with_formatAddress_def online_env_def mainnet_credentials_def
  invalid_address_parameters_def Let_def

text \<open>
  C7, as stated: an item whose address fails validation causes no provider request of any
  kind. The address \<open>0xinvalid\<close> is rejected by \<^verbatim>\<open>isAddress\<close>; the \<^verbatim>\<open>account\<close> item
  fails with the validation error after \<^verbatim>\<open>provider.getNetwork()\<close> has been awaited by
  the client creation, and the \<^verbatim>\<open>getAccountType\<close> item, which has no validation, goes
  on to \<^verbatim>\<open>provider.getCode\<close> with that address.
\<close>

theorem invalid_address_requests_counterexample:
  "\<not> x_isAddress online_env (p_address invalid_address_parameters)
   \<and> execute_item online_env mainnet_credentials (Account AccGetBalance) invalid_address_parameters
       = (Inl (Error ''Invalid Ethereum address''), [Req_getNetwork])
   \<and> execute_item online_env mainnet_credentials GetAccountType invalid_address_parameters
       = (Inl TypeError, [Req_getNetwork, Req_getCode ''0xinvalid''])"
  by (simp add: execute_eval)

text \<open>
  C7, amended: for the operations that validate an address (the five \<^verbatim>\<open>account\<close>
  operations on \<^verbatim>\<open>address\<close>, \<^verbatim>\<open>sendEth\<close> on \<^verbatim>\<open>toAddress\<close>), an address that fails
  validation makes the item fail, and the only call the item can have made on the
  provider is the \<^verbatim>\<open>getNetwork\<close> of the client creation: no request of the operation
  itself is issued. When the client creation succeeds, that one call has been made and
  the item fails with the validation error (for \<^verbatim>\<open>sendEth\<close> without a wallet, with the
  missing-key error that precedes the check).
\<close>

theorem invalid_address_fails_before_operation_requests:
  assumes "validated_address op ps = Some a" and "\<not> x_isAddress env a"
  shows "(\<exists>e. fst (execute_item env cr op ps) = Inl e)
       \<and> set (snd (execute_item env cr op ps)) \<subseteq> {Req_getNetwork}
       \<and> (\<forall>cl. fst (createZkSyncClient env (cr_network cr) (cr_customRpcUrl cr) (cr_privateKey cr))
                  = Inr cl \<longrightarrow>
             execute_item env cr op ps
               = (Inl (Error (if op = SendEth
                              then (if cl_wallet cl then ''Invalid recipient address''
                                    else ''Private key is required to send transactions'')
                              else ''Invalid Ethereum address'')),
                  [Req_getNetwork]))"
proof -
  obtain r trace where c:
    "createZkSyncClient env (cr_network cr) (cr_customRpcUrl cr) (cr_privateKey cr) = (r, trace)"
    by (cases "createZkSyncClient env (cr_network cr) (cr_customRpcUrl cr) (cr_privateKey cr)") auto
  note t = createZkSyncClient_trace [OF c]
  show ?thesis
  proof (cases r)
    case (Inl e)
    with c t show ?thesis by (simp add: execute_item_def)
  next
    case (Inr cl)
    with t have tr: "trace = [Req_getNetwork]" by simp
    show ?thesis
    proof (cases op)
      case (Account operation)
      with assms c Inr tr show ?thesis
        by (simp add: execute_item_def execute_account_def)
    next
      case SendEth
      with assms c Inr tr show ?thesis
        by (simp add: execute_item_def execute_sendEth_def)
    next
      case GetAccountType
      with assms show ?thesis by simp
    qed
  qed
qed

theorem invalid_address_fails_before_operation_requests_witness:
  "execute_item online_env mainnet_credentials (Account AccGetCode) invalid_address_parameters
       = (Inl (Error ''Invalid Ethereum address''), [Req_getNetwork])"
proof -
  have a: "validated_address (Account AccGetCode) invalid_address_parameters = Some ''0xinvalid''"
    "\<not> x_isAddress online_env ''0xinvalid''"
    by (simp_all add: invalid_address_parameters_def online_env_def)
  have c: "fst (createZkSyncClient online_env (cr_network mainnet_credentials)
                  (cr_customRpcUrl mainnet_credentials) (cr_privateKey mainnet_credentials))
           = Inr \<lparr>cl_wallet = False, cl_chainId = 324\<rparr>"
    by (simp add: createZkSyncClient_def online_env_def mainnet_credentials_def Let_def)
  from invalid_address_fails_before_operation_requests [OF a, of mainnet_credentials] c
  show ?thesis by simp
qed

end
